theory Spec2Isabelle
  imports Complex_Main "HOL-Library.Multiset"
begin

section \<open>Numbers\<close>

text \<open>
  The C type \<^verbatim>\<open>double\<close> carries, besides finite numbers, the two infinities and
  not-a-number; the program divides by norms and by the cube of the radius without a test,
  so the special values are part of what it computes.  \<open>dbl\<close> keeps them and idealises the
  rest: a finite value is a real number, the operations \<open>+\<close>, \<open>-\<close>, \<open>*\<close>, \<open>/\<close>, \<^verbatim>\<open>sqrt\<close>,
  \<^verbatim>\<open>cos\<close>, \<^verbatim>\<open>sin\<close> and \<^verbatim>\<open>fabs\<close> on finite operands are exact (no rounding, no overflow,
  no underflow), the constant \<^verbatim>\<open>M_PI\<close> is \<open>\<pi>\<close>, and the two zeros are one value that divides
  like \<open>+0\<close>.  Two places of the program are not idealised, because its results depend on
  them: the result of \<^verbatim>\<open>pow\<close> is brought into the range of a \<^verbatim>\<open>double\<close> (\<open>dpow\<close>), and the
  conversions \<^verbatim>\<open>(float)\<close> and the quotient of two \<^verbatim>\<open>float\<close> values are rounded to single
  precision (\<open>to_float\<close>, \<open>fdiv\<close>).
\<close>

datatype dbl = Fin real | PInf | NInf | NaN

fun dneg :: "dbl \<Rightarrow> dbl" where
  "dneg (Fin a) = Fin (- a)"
| "dneg PInf = NInf"
| "dneg NInf = PInf"
| "dneg NaN = NaN"

fun dadd :: "dbl \<Rightarrow> dbl \<Rightarrow> dbl" where
  "dadd (Fin a) (Fin b) = Fin (a + b)"
| "dadd NaN _ = NaN"
| "dadd _ NaN = NaN"
| "dadd PInf NInf = NaN"
| "dadd NInf PInf = NaN"
| "dadd PInf _ = PInf"
| "dadd _ PInf = PInf"
| "dadd NInf _ = NInf"
| "dadd _ NInf = NInf"

definition dsub :: "dbl \<Rightarrow> dbl \<Rightarrow> dbl" where
  "dsub a b = dadd a (dneg b)"

fun dmul :: "dbl \<Rightarrow> dbl \<Rightarrow> dbl" where
  "dmul (Fin a) (Fin b) = Fin (a * b)"
| "dmul NaN _ = NaN"
| "dmul _ NaN = NaN"
| "dmul (Fin a) PInf = (if a = 0 then NaN else if 0 < a then PInf else NInf)"
| "dmul (Fin a) NInf = (if a = 0 then NaN else if 0 < a then NInf else PInf)"
| "dmul PInf (Fin b) = (if b = 0 then NaN else if 0 < b then PInf else NInf)"
| "dmul NInf (Fin b) = (if b = 0 then NaN else if 0 < b then NInf else PInf)"
| "dmul PInf PInf = PInf"
| "dmul PInf NInf = NInf"
| "dmul NInf PInf = NInf"
| "dmul NInf NInf = PInf"

fun ddiv :: "dbl \<Rightarrow> dbl \<Rightarrow> dbl" where
  "ddiv (Fin a) (Fin b) =
     (if b = 0 then (if a = 0 then NaN else if 0 < a then PInf else NInf) else Fin (a / b))"
| "ddiv NaN _ = NaN"
| "ddiv _ NaN = NaN"
| "ddiv (Fin a) PInf = Fin 0"
| "ddiv (Fin a) NInf = Fin 0"
| "ddiv PInf (Fin b) = (if 0 \<le> b then PInf else NInf)"
| "ddiv NInf (Fin b) = (if 0 \<le> b then NInf else PInf)"
| "ddiv PInf PInf = NaN"
| "ddiv PInf NInf = NaN"
| "ddiv NInf PInf = NaN"
| "ddiv NInf NInf = NaN"

fun dsqrt :: "dbl \<Rightarrow> dbl" where
  "dsqrt (Fin a) = (if a < 0 then NaN else Fin (sqrt a))"
| "dsqrt PInf = PInf"
| "dsqrt NInf = NaN"
| "dsqrt NaN = NaN"

fun dcos :: "dbl \<Rightarrow> dbl" where
  "dcos (Fin a) = Fin (cos a)"
| "dcos PInf = NaN"
| "dcos NInf = NaN"
| "dcos NaN = NaN"

fun dsin :: "dbl \<Rightarrow> dbl" where
  "dsin (Fin a) = Fin (sin a)"
| "dsin PInf = NaN"
| "dsin NInf = NaN"
| "dsin NaN = NaN"

fun dfabs :: "dbl \<Rightarrow> dbl" where
  "dfabs (Fin a) = Fin \<bar>a\<bar>"
| "dfabs PInf = PInf"
| "dfabs NInf = PInf"
| "dfabs NaN = NaN"

text \<open>
  \<^verbatim>\<open>pow(x, e)\<close> for an exponent that is a non-negative integer constant.  The power of a
  finite number is a \<^verbatim>\<open>double\<close> again: a magnitude of at most \<open>2\<^sup>-\<^sup>1\<^sup>0\<^sup>7\<^sup>5\<close>, half the smallest
  positive \<^verbatim>\<open>double\<close>, becomes zero, and a magnitude of at least \<open>2\<^sup>1\<^sup>0\<^sup>2\<^sup>4 - 2\<^sup>9\<^sup>7\<^sup>0\<close>, half an
  ulp above the largest finite \<^verbatim>\<open>double\<close>, becomes infinite.  Between the two the power is
  exact, as the other operations are.
\<close>

definition pow_range :: "real \<Rightarrow> dbl" where
  "pow_range y =
     (if \<bar>y\<bar> \<le> 1 / 2 ^ 1075 then Fin 0
      else if 2 ^ 1024 - 2 ^ 970 \<le> \<bar>y\<bar> then (if 0 < y then PInf else NInf)
      else Fin y)"

fun dpow :: "dbl \<Rightarrow> nat \<Rightarrow> dbl" where
  "dpow b 0 = Fin 1"
| "dpow (Fin x) (Suc e) = pow_range (x ^ Suc e)"
| "dpow PInf (Suc e) = PInf"
| "dpow NInf (Suc e) = (if even (Suc e) then PInf else NInf)"
| "dpow NaN (Suc e) = NaN"

text \<open>The comparisons of C: every comparison with not-a-number is false.\<close>

fun dlt :: "dbl \<Rightarrow> dbl \<Rightarrow> bool" where
  "dlt (Fin a) (Fin b) = (a < b)"
| "dlt NaN _ = False"
| "dlt _ NaN = False"
| "dlt _ NInf = False"
| "dlt PInf _ = False"
| "dlt NInf _ = True"
| "dlt _ PInf = True"

definition dgt :: "dbl \<Rightarrow> dbl \<Rightarrow> bool" where
  "dgt a b = dlt b a"

fun dge :: "dbl \<Rightarrow> dbl \<Rightarrow> bool" where
  "dge (Fin a) (Fin b) = (b \<le> a)"
| "dge NaN _ = False"
| "dge _ NaN = False"
| "dge PInf _ = True"
| "dge _ NInf = True"
| "dge NInf _ = False"
| "dge _ PInf = False"

fun is_finite :: "dbl \<Rightarrow> bool" where
  "is_finite (Fin a) = True"
| "is_finite PInf = False"
| "is_finite NInf = False"
| "is_finite NaN = False"

subsection \<open>Single precision\<close>

text \<open>
  A \<^verbatim>\<open>float\<close> is an IEEE binary32 number: 24 significant bits, exponents from \<open>-126\<close> to
  \<open>127\<close>, rounding to the nearest number with ties to the even significand.  \<open>pow2 k\<close> is
  \<open>2\<^sup>k\<close>, \<open>rne\<close> rounds a real number to the nearest integer with ties to the even one,
  \<open>float_exp x\<close> is the exponent of the binade of a positive \<open>x\<close> (that of the subnormal
  numbers at the lower end), and \<open>fl32 x\<close> is the \<^verbatim>\<open>float\<close> nearest to \<open>x\<close>, held in a \<open>dbl\<close>
  as the program holds it once it enters an expression of type \<^verbatim>\<open>double\<close>.
\<close>

definition pow2 :: "int \<Rightarrow> real" where
  "pow2 k = (if 0 \<le> k then 2 ^ nat k else 1 / 2 ^ nat (- k))"

definition rne :: "real \<Rightarrow> int" where
  "rne x = (if x - of_int \<lfloor>x\<rfloor> < 1 / 2 then \<lfloor>x\<rfloor>
            else if 1 / 2 < x - of_int \<lfloor>x\<rfloor> then \<lfloor>x\<rfloor> + 1
            else if even \<lfloor>x\<rfloor> then \<lfloor>x\<rfloor> else \<lfloor>x\<rfloor> + 1)"

definition float_exp :: "real \<Rightarrow> int" where
  "float_exp x = max \<lfloor>log 2 x\<rfloor> (- 126)"

definition fl32_pos :: "real \<Rightarrow> dbl" where
  "fl32_pos x =
     (let ulp = pow2 (float_exp x - 23);
          y = of_int (rne (x / ulp)) * ulp
      in if 2 ^ 128 \<le> y then PInf else Fin y)"

definition fl32 :: "real \<Rightarrow> dbl" where
  "fl32 x = (if x = 0 then Fin 0 else if 0 < x then fl32_pos x else dneg (fl32_pos (- x)))"

text \<open>The conversion \<^verbatim>\<open>(float) n\<close> of an unsigned counter.\<close>

definition to_float :: "nat \<Rightarrow> dbl" where
  "to_float n = fl32 (real n)"

text \<open>The quotient of two \<^verbatim>\<open>float\<close> values, which is a \<^verbatim>\<open>float\<close>.\<close>

definition fdiv :: "dbl \<Rightarrow> dbl \<Rightarrow> dbl" where
  "fdiv a b = (case ddiv a b of Fin q \<Rightarrow> fl32 q | PInf \<Rightarrow> PInf | NInf \<Rightarrow> NInf | NaN \<Rightarrow> NaN)"

section \<open>The vector library (\<^verbatim>\<open>mat3.h\<close>)\<close>

text \<open>
  \<^verbatim>\<open>struct vec3\<close> has the fields \<^verbatim>\<open>x\<close>, \<^verbatim>\<open>y\<close>, \<^verbatim>\<open>z\<close> and \<^verbatim>\<open>struct mat3\<close> the rows
  \<^verbatim>\<open>a\<close>, \<^verbatim>\<open>b\<close>, \<^verbatim>\<open>c\<close>, as \<^verbatim>\<open>fastincommsum.c\<close> uses them; the fields are prefixed here
  because a field name is a constant of the theory.
\<close>

record vec3 =
  vx :: dbl
  vy :: dbl
  vz :: dbl

record mat3 =
  row_a :: vec3
  row_b :: vec3
  row_c :: vec3

text \<open>
  The header \<^verbatim>\<open>mat3.h\<close> is not among the sources.  The spec names the vector operations
  (add, subtract, scalar-multiply, dot product, norm) as pure functions on 3-vectors; they
  are taken componentwise.
\<close>

text \<open>Modelled from the spec: the zero vector that \<^verbatim>\<open>mat3.h\<close> supplies.\<close>

definition vec3_zero :: vec3 where
  "vec3_zero = \<lparr>vx = Fin 0, vy = Fin 0, vz = Fin 0\<rparr>"

text \<open>Modelled from the spec: vector addition of \<^verbatim>\<open>mat3.h\<close>, componentwise.\<close>

definition vec3_add :: "vec3 \<Rightarrow> vec3 \<Rightarrow> vec3" where
  "vec3_add v w = \<lparr>vx = dadd (vx v) (vx w), vy = dadd (vy v) (vy w), vz = dadd (vz v) (vz w)\<rparr>"

text \<open>Modelled from the spec: vector subtraction of \<^verbatim>\<open>mat3.h\<close>, componentwise.\<close>

definition vec3_sub :: "vec3 \<Rightarrow> vec3 \<Rightarrow> vec3" where
  "vec3_sub v w = \<lparr>vx = dsub (vx v) (vx w), vy = dsub (vy v) (vy w), vz = dsub (vz v) (vz w)\<rparr>"

text \<open>
  Modelled from the spec: scalar multiplication of \<^verbatim>\<open>mat3.h\<close>; the scalar is the first
  argument, as at every call site.
\<close>

definition vec3_muls :: "dbl \<Rightarrow> vec3 \<Rightarrow> vec3" where
  "vec3_muls s v = \<lparr>vx = dmul s (vx v), vy = dmul s (vy v), vz = dmul s (vz v)\<rparr>"

text \<open>Modelled from the spec: the dot product of \<^verbatim>\<open>mat3.h\<close>.\<close>

definition vec3_dot :: "vec3 \<Rightarrow> vec3 \<Rightarrow> dbl" where
  "vec3_dot v w = dadd (dadd (dmul (vx v) (vx w)) (dmul (vy v) (vy w))) (dmul (vz v) (vz w))"

text \<open>Modelled from the spec: the Euclidean norm of \<^verbatim>\<open>mat3.h\<close>.\<close>

definition vec3_norm :: "vec3 \<Rightarrow> dbl" where
  "vec3_norm v = dsqrt (vec3_dot v v)"

text \<open>
  What the headers \<^verbatim>\<open>mat3.h\<close> and \<^verbatim>\<open>config.h\<close> supply beyond that is a parameter of the
  model: the two macros and the four matrix functions that \<^verbatim>\<open>FastIncommSum\<close> calls.
  \<^verbatim>\<open>CONT_SCALING_POWER\<close> is taken to be a non-negative integer.
\<close>

record externals =
  EPS :: dbl
  CONT_SCALING_POWER :: nat
  mat3_inv :: "mat3 \<Rightarrow> mat3"
  mat3_mul :: "mat3 \<Rightarrow> mat3 \<Rightarrow> mat3"
  mat3_diag :: "dbl \<Rightarrow> dbl \<Rightarrow> dbl \<Rightarrow> mat3"
  mat3_vmul :: "vec3 \<Rightarrow> mat3 \<Rightarrow> vec3"

section \<open>The bounded nearest-set selector (\<^verbatim>\<open>pile.h\<close>)\<close>

text \<open>
  \<^verbatim>\<open>FastIncommSum\<close> reads the arrays \<^verbatim>\<open>ranks\<close> and \<^verbatim>\<open>elements\<close> of a pile at the indices
  below \<^verbatim>\<open>nnn_for_cont\<close>.
\<close>

record pile =
  nElements :: nat
  ranks :: "dbl list"
  elements :: "vec3 list"

text \<open>
  Modelled from the spec: \<^verbatim>\<open>pile.h\<close> and its implementation are not among the sources.
  The spec: a pile is constructed with a fixed capacity; positions beyond the number of
  candidates seen hold a negative sentinel rank that callers treat as absent.  The
  sentinel is taken to be \<open>-1\<close> and the vector of an absent position to be zero.
\<close>

definition pile_init :: "nat \<Rightarrow> pile" where
  "pile_init n = \<lparr>nElements = n, ranks = replicate n (Fin (- 1)),
                  elements = replicate n vec3_zero\<rparr>"

text \<open>
  Modelled from the spec: the index that a new entry of \<^verbatim>\<open>pile_add_element\<close> takes, behind
  every present entry whose rank is not larger, so that among equal ranks the one seen
  first stays in front.  An entry is present when its rank is not negative.
\<close>

definition pile_slot :: "dbl list \<Rightarrow> dbl \<Rightarrow> nat" where
  "pile_slot rs rank = length (takeWhile (\<lambda>r. dge r (Fin 0) \<and> \<not> dlt rank r) rs)"

text \<open>
  Modelled from the spec: the insertion of \<^verbatim>\<open>pile.h\<close>.  With fewer entries than the
  capacity the new entry is inserted in ascending order of rank; at capacity it is
  inserted only if its rank is smaller than the largest retained rank, which is evicted.
\<close>

definition pile_add_element :: "pile \<Rightarrow> dbl \<Rightarrow> vec3 \<Rightarrow> pile" where
  "pile_add_element p rank v =
     (let pos = pile_slot (ranks p) rank
      in if pos < nElements p
         then p\<lparr>ranks := take (nElements p) (take pos (ranks p) @ rank # drop pos (ranks p)),
                elements := take (nElements p)
                              (take pos (elements p) @ v # drop pos (elements p))\<rparr>
         else p)"

section \<open>\<^verbatim>\<open>FastIncommSum\<close>\<close>

text \<open>
  The arguments.  A pointer argument is the sequence of the values behind it, read by
  index; the counts are natural numbers, and a property that depends on the range of
  \<^verbatim>\<open>unsigned int\<close> states the bound \<open>2\<^sup>3\<^sup>2\<close>.  The build modelled is the standard one: neither \<^verbatim>\<open>_DEBUG\<close> nor
  \<^verbatim>\<open>_ALTERNATE_FC_INPUT\<close> is defined, and the loops run in their sequential order, as they
  do without OpenMP or with one thread.
\<close>

record fis_input =
  in_positions :: "nat \<Rightarrow> dbl"
  in_fc :: "nat \<Rightarrow> dbl"
  in_K :: "nat \<Rightarrow> dbl"
  in_phi :: "nat \<Rightarrow> dbl"
  in_muonpos :: "nat \<Rightarrow> dbl"
  in_supercell :: "nat \<Rightarrow> int"
  in_cell :: "nat \<Rightarrow> dbl"
  radius :: dbl
  nnn_for_cont :: nat
  cont_radius :: dbl
  in_natoms :: nat
  in_nangles :: nat

text \<open>What the function prints on the standard output, one value for each \<^verbatim>\<open>printf\<close>.\<close>

datatype message =
  StagMomDiffers nat
| NotOrthogonal nat dbl
| PhiNotTested
| OddRanks dbl dbl

subsection \<open>Lines 129--213: supercell, lattice, muon position\<close>

record geometry =
  scx :: nat
  scy :: nat
  scz :: nat
  sc_lat :: mat3
  inv_sc_lat :: mat3
  muonpos :: vec3
  Kvec :: vec3

text \<open>An \<^verbatim>\<open>int\<close> stored into an \<^verbatim>\<open>unsigned int\<close> is reduced modulo \<open>2^32\<close>.\<close>

definition to_unsigned :: "int \<Rightarrow> nat" where
  "to_unsigned v = nat (v mod 2 ^ 32)"

definition cell_lat :: "fis_input \<Rightarrow> mat3" where
  "cell_lat inp =
     \<lparr>row_a = \<lparr>vx = in_cell inp 0, vy = in_cell inp 1, vz = in_cell inp 2\<rparr>,
      row_b = \<lparr>vx = in_cell inp 3, vy = in_cell inp 4, vz = in_cell inp 5\<rparr>,
      row_c = \<lparr>vx = in_cell inp 6, vy = in_cell inp 7, vz = in_cell inp 8\<rparr>\<rparr>"

text \<open>
  A fractional position moved by \<open>(ox, oy, oz)\<close> cells and reduced to the supercell: the
  divisor is \<^verbatim>\<open>(float) scx\<close>, and the quotient is formed in double precision, its dividend
  being a \<^verbatim>\<open>double\<close>.
\<close>

definition reduced :: "(nat \<Rightarrow> dbl) \<Rightarrow> nat \<Rightarrow> dbl \<Rightarrow> dbl \<Rightarrow> dbl \<Rightarrow> nat \<Rightarrow> nat \<Rightarrow> nat \<Rightarrow> vec3" where
  "reduced p off ox oy oz sx sy sz =
     \<lparr>vx = ddiv (dadd (p (off + 0)) ox) (to_float sx),
      vy = ddiv (dadd (p (off + 1)) oy) (to_float sy),
      vz = ddiv (dadd (p (off + 2)) oz) (to_float sz)\<rparr>"

text \<open>
  The offset \<^verbatim>\<open>scx/2\<close> of lines 199--201 and 221--223 is a quotient of unsigned integers,
  converted to \<^verbatim>\<open>double\<close> without loss.
\<close>

definition half_cells :: "nat \<Rightarrow> dbl" where
  "half_cells sx = Fin (real (sx div 2))"

definition fis_geometry :: "externals \<Rightarrow> fis_input \<Rightarrow> geometry" where
  "fis_geometry L inp =
     (let sx = to_unsigned (in_supercell inp 0);
          sy = to_unsigned (in_supercell inp 1);
          sz = to_unsigned (in_supercell inp 2);
          lat = cell_lat inp;
          inv = mat3_inv L lat;
          lat' = mat3_mul L (mat3_diag L (to_float sx) (to_float sy) (to_float sz)) lat;
          mu = mat3_vmul L
                 (reduced (in_muonpos inp) 0 (half_cells sx) (half_cells sy) (half_cells sz)
                    sx sy sz) lat'
      in \<lparr>scx = sx, scy = sy, scz = sz, sc_lat = lat', inv_sc_lat = inv, muonpos = mu,
          Kvec = \<lparr>vx = in_K inp 0, vy = in_K inp 1, vz = in_K inp 2\<rparr>\<rparr>)"

subsection \<open>Lines 217--288: the helix decomposition\<close>

text \<open>
  The loop writes, in its pass for atom \<open>a\<close>, the entry \<open>a\<close> of each of the four arrays and
  nothing else, so after \<open>a\<close> passes the arrays are the lists of their first \<open>a\<close> entries.
\<close>

record helix =
  stagmom :: "dbl list"
  refatmpos :: "vec3 list"
  Ahelix :: "vec3 list"
  Bhelix :: "vec3 list"
  helix_out :: "message list"

definition fc_re :: "fis_input \<Rightarrow> nat \<Rightarrow> vec3" where
  "fc_re inp a = \<lparr>vx = in_fc inp (6 * a), vy = in_fc inp (6 * a + 2), vz = in_fc inp (6 * a + 4)\<rparr>"

definition fc_im :: "fis_input \<Rightarrow> nat \<Rightarrow> vec3" where
  "fc_im inp a =
     \<lparr>vx = in_fc inp (6 * a + 1), vy = in_fc inp (6 * a + 3), vz = in_fc inp (6 * a + 5)\<rparr>"

definition helix_body :: "externals \<Rightarrow> fis_input \<Rightarrow> geometry \<Rightarrow> nat \<Rightarrow> helix \<Rightarrow> helix" where
  "helix_body L inp su a h =
     (let ref = mat3_vmul L
                  (reduced (in_positions inp) (3 * a)
                     (half_cells (scx su)) (half_cells (scy su)) (half_cells (scz su))
                     (scx su) (scy su) (scz su))
                  (sc_lat su);
          tmp = fc_re inp a;
          m = vec3_norm tmp;
          A = vec3_muls (ddiv (Fin 1) m) tmp;
          tmp' = fc_im inp a;
          out1 = (if dgt (dfabs (dsub m (vec3_norm tmp'))) (EPS L) then [StagMomDiffers a] else []);
          B = vec3_muls (ddiv (Fin 1) (vec3_norm tmp')) tmp';
          out2 = (if dgt (dfabs (vec3_dot A B)) (EPS L)
                  then [NotOrthogonal a (vec3_dot A B)] else []);
          out3 = (if dgt (dfabs (in_phi inp a)) (EPS L) then [PhiNotTested] else [])
      in \<lparr>stagmom = stagmom h @ [m], refatmpos = refatmpos h @ [ref],
          Ahelix = Ahelix h @ [A], Bhelix = Bhelix h @ [B],
          helix_out = helix_out h @ out1 @ out2 @ out3\<rparr>)"

primrec helix_loop :: "externals \<Rightarrow> fis_input \<Rightarrow> geometry \<Rightarrow> nat \<Rightarrow> helix" where
  "helix_loop L inp su 0 =
     \<lparr>stagmom = [], refatmpos = [], Ahelix = [], Bhelix = [], helix_out = []\<rparr>"
| "helix_loop L inp su (Suc a) = helix_body L inp su a (helix_loop L inp su a)"

definition helix_decomposition :: "externals \<Rightarrow> fis_input \<Rightarrow> geometry \<Rightarrow> helix" where
  "helix_decomposition L inp su = helix_loop L inp su (in_natoms inp)"

subsection \<open>Lines 296--433: the lattice reduction\<close>

record accum =
  CDip :: "vec3 list"
  SDip :: "vec3 list"
  CLor :: "vec3 list"
  SLor :: "vec3 list"
  CCont :: pile
  SCont :: pile

text \<open>Lines 116--127: the piles and the zeroed accumulators.\<close>

definition accum_init :: "fis_input \<Rightarrow> accum" where
  "accum_init inp =
     \<lparr>CDip = replicate (in_natoms inp) vec3_zero, SDip = replicate (in_natoms inp) vec3_zero,
      CLor = replicate (in_natoms inp) vec3_zero, SLor = replicate (in_natoms inp) vec3_zero,
      CCont = pile_init (nnn_for_cont inp), SCont = pile_init (nnn_for_cont inp)\<rparr>"

text \<open>Lines 307--321: the position of atom \<open>a\<close> in replica \<open>(i, j, k)\<close> and its distance.\<close>

definition tuple_atmpos :: "externals \<Rightarrow> fis_input \<Rightarrow> geometry \<Rightarrow> nat \<Rightarrow> nat \<Rightarrow> nat \<Rightarrow> nat \<Rightarrow> vec3" where
  "tuple_atmpos L inp su i j k a =
     mat3_vmul L
       (reduced (in_positions inp) (3 * a) (to_float i) (to_float j) (to_float k)
          (scx su) (scy su) (scz su)) (sc_lat su)"

definition tuple_r :: "externals \<Rightarrow> fis_input \<Rightarrow> geometry \<Rightarrow> nat \<Rightarrow> nat \<Rightarrow> nat \<Rightarrow> nat \<Rightarrow> vec3" where
  "tuple_r L inp su i j k a = vec3_sub (tuple_atmpos L inp su i j k a) (muonpos su)"

definition tuple_n :: "externals \<Rightarrow> fis_input \<Rightarrow> geometry \<Rightarrow> nat \<Rightarrow> nat \<Rightarrow> nat \<Rightarrow> nat \<Rightarrow> dbl" where
  "tuple_n L inp su i j k a = vec3_norm (tuple_r L inp su i j k a)"

text \<open>Lines 333--336: the phase argument.\<close>

definition tuple_theta ::
  "externals \<Rightarrow> fis_input \<Rightarrow> geometry \<Rightarrow> helix \<Rightarrow> nat \<Rightarrow> nat \<Rightarrow> nat \<Rightarrow> nat \<Rightarrow> dbl" where
  "tuple_theta L inp su h i j k a =
     (let atmpos = tuple_atmpos L inp su i j k a;
          crysvec = mat3_vmul L (vec3_sub (vec3_sub atmpos (muonpos su)) (refatmpos h ! a))
                      (inv_sc_lat su)
      in dmul (dmul (Fin 2) (Fin pi)) (dadd (vec3_dot (Kvec su) crysvec) (in_phi inp a)))"

text \<open>Lines 303--430: the body of the innermost loop.\<close>

definition lattice_body ::
  "externals \<Rightarrow> fis_input \<Rightarrow> geometry \<Rightarrow> helix \<Rightarrow> accum \<Rightarrow> nat \<times> nat \<times> nat \<times> nat \<Rightarrow> accum" where
  "lattice_body L inp su h st t =
     (case t of (i, j, k, a) \<Rightarrow>
       (let r = tuple_r L inp su i j k a;
            n = vec3_norm r
        in if dlt n (radius inp)
           then
             (let u = vec3_muls (ddiv (Fin 1) n) r;
                  onebrcube = ddiv (Fin 1) (dpow n 3);
                  c = dcos (tuple_theta L inp su h i j k a);
                  s = dsin (tuple_theta L inp su h i j k a);
                  A = Ahelix h ! a;
                  B = Bhelix h ! a;
                  dA = vec3_sub (vec3_muls (dmul (Fin 3) (vec3_dot A u)) u) A;
                  dB = vec3_sub (vec3_muls (dmul (Fin 3) (vec3_dot B u)) u) B;
                  st1 = st\<lparr>CDip := (CDip st)[a := vec3_add (CDip st ! a)
                                 (vec3_add (vec3_muls (dmul c onebrcube) dA)
                                           (vec3_muls (dmul s onebrcube) dB))],
                           SDip := (SDip st)[a := vec3_add (SDip st ! a)
                                 (vec3_sub (vec3_muls (dmul s onebrcube) dA)
                                           (vec3_muls (dmul c onebrcube) dB))]\<rparr>;
                  st2 = st1\<lparr>CLor := (CLor st1)[a := vec3_add (CLor st1 ! a)
                                 (vec3_add (vec3_muls c A) (vec3_muls s B))],
                            SLor := (SLor st1)[a := vec3_add (SLor st1 ! a)
                                 (vec3_sub (vec3_muls s A) (vec3_muls c B))]\<rparr>
              in if dlt n (cont_radius inp)
                 then st2\<lparr>CCont := pile_add_element (CCont st2) (dpow n (CONT_SCALING_POWER L))
                                     (vec3_add (vec3_muls (dmul (stagmom h ! a) c) A)
                                               (vec3_muls (dmul (stagmom h ! a) s) B)),
                          SCont := pile_add_element (SCont st2) (dpow n (CONT_SCALING_POWER L))
                                     (vec3_sub (vec3_muls (dmul (stagmom h ! a) s) A)
                                               (vec3_muls (dmul (stagmom h ! a) c) B))\<rparr>
                 else st2)
           else st))"

text \<open>The four nested loops, in the order in which they run.\<close>

definition replica_tuples :: "geometry \<Rightarrow> fis_input \<Rightarrow> (nat \<times> nat \<times> nat \<times> nat) list" where
  "replica_tuples su inp =
     [(i, j, k, a). i \<leftarrow> [0..<scx su], j \<leftarrow> [0..<scy su], k \<leftarrow> [0..<scz su],
                    a \<leftarrow> [0..<in_natoms inp]]"

definition lattice_reduction :: "externals \<Rightarrow> fis_input \<Rightarrow> geometry \<Rightarrow> helix \<Rightarrow> accum" where
  "lattice_reduction L inp su h =
     foldl (lattice_body L inp su h) (accum_init inp) (replica_tuples su inp)"

subsection \<open>Lines 448--495: the dipolar and Lorentz fields\<close>

text \<open>
  Lines 450 and 526: \<^verbatim>\<open>2*M_PI*((float) angn / (float) in_nangles)\<close>.  The two counters are
  converted to \<^verbatim>\<open>float\<close> and divided in single precision; the product with \<^verbatim>\<open>2*M_PI\<close> is
  formed in double precision.
\<close>

definition sweep_angle :: "fis_input \<Rightarrow> nat \<Rightarrow> dbl" where
  "sweep_angle inp angn =
     dmul (dmul (Fin 2) (Fin pi)) (fdiv (to_float angn) (to_float (in_nangles inp)))"

text \<open>The loops of lines 455--466 and 477--488, over the atoms below \<open>a\<close>.\<close>

primrec moment_loop :: "dbl list \<Rightarrow> vec3 list \<Rightarrow> vec3 list \<Rightarrow> dbl \<Rightarrow> nat \<Rightarrow> vec3" where
  "moment_loop m C S angle 0 = vec3_zero"
| "moment_loop m C S angle (Suc a) =
     vec3_add (moment_loop m C S angle a)
       (vec3_muls (m ! a)
          (vec3_sub (vec3_muls (dcos angle) (C ! a)) (vec3_muls (dsin angle) (S ! a))))"

definition BDip_at :: "fis_input \<Rightarrow> helix \<Rightarrow> accum \<Rightarrow> nat \<Rightarrow> vec3" where
  "BDip_at inp h st angn =
     vec3_muls (Fin (9274009 / 10 ^ 7))
       (moment_loop (stagmom h) (CDip st) (SDip st) (sweep_angle inp angn) (in_natoms inp))"

definition BLor_at :: "fis_input \<Rightarrow> helix \<Rightarrow> accum \<Rightarrow> nat \<Rightarrow> vec3" where
  "BLor_at inp h st angn =
     vec3_muls (dmul (Fin (33333333333 / 10 ^ 11)) (Fin (11654064 / 10 ^ 6)))
       (vec3_muls (ddiv (Fin 3) (dmul (dmul (Fin 4) (Fin pi)) (dpow (radius inp) 3)))
          (moment_loop (stagmom h) (CLor st) (SLor st) (sweep_angle inp angn) (in_natoms inp)))"

text \<open>The output arrays hold three numbers for each angle.\<close>

primrec dip_lor_loop :: "fis_input \<Rightarrow> helix \<Rightarrow> accum \<Rightarrow> nat \<Rightarrow> dbl list \<times> dbl list" where
  "dip_lor_loop inp h st 0 = ([], [])"
| "dip_lor_loop inp h st (Suc angn) =
     (let (dip, lor) = dip_lor_loop inp h st angn;
          BDip = BDip_at inp h st angn;
          BLor = BLor_at inp h st angn
      in (dip @ [vx BDip, vy BDip, vz BDip], lor @ [vx BLor, vy BLor, vz BLor]))"

subsection \<open>Lines 503--540: the contact field\<close>

record contact_acc =
  CBCont :: vec3
  SBCont :: vec3
  SumOfWeights :: dbl
  NofM :: nat
  contact_out :: "message list"

definition contact_init :: contact_acc where
  "contact_init = \<lparr>CBCont = vec3_zero, SBCont = vec3_zero, SumOfWeights = Fin 0, NofM = 0,
                    contact_out = []\<rparr>"

definition contact_body :: "externals \<Rightarrow> pile \<Rightarrow> pile \<Rightarrow> nat \<Rightarrow> contact_acc \<Rightarrow> contact_acc" where
  "contact_body L C S i acc =
     (if dge (ranks C ! i) (Fin 0) \<and> dlt (dfabs (dsub (ranks C ! i) (ranks S ! i))) (EPS L)
      then acc\<lparr>CBCont := vec3_add (CBCont acc)
                           (vec3_muls (ddiv (Fin 1) (ranks C ! i)) (elements C ! i)),
               SBCont := vec3_add (SBCont acc)
                           (vec3_muls (ddiv (Fin 1) (ranks S ! i)) (elements S ! i)),
               SumOfWeights := dadd (SumOfWeights acc) (ddiv (Fin 1) (ranks C ! i)),
               NofM := Suc (NofM acc)\<rparr>
      else acc\<lparr>contact_out := contact_out acc @ [OddRanks (ranks C ! i) (ranks S ! i)]\<rparr>)"

primrec contact_loop :: "externals \<Rightarrow> pile \<Rightarrow> pile \<Rightarrow> nat \<Rightarrow> contact_acc" where
  "contact_loop L C S 0 = contact_init"
| "contact_loop L C S (Suc i) = contact_body L C S i (contact_loop L C S i)"

text \<open>
  Lines 524--540.  \<^verbatim>\<open>BCont\<close> is set to zero once, before the loops, and assigned in a
  pass only when \<^verbatim>\<open>NofM\<close> is positive: the loop carries it.
\<close>

primrec cont_out_loop :: "fis_input \<Rightarrow> contact_acc \<Rightarrow> nat \<Rightarrow> vec3 \<times> dbl list" where
  "cont_out_loop inp acc 0 = (vec3_zero, [])"
| "cont_out_loop inp acc (Suc angn) =
     (let (BCont, out) = cont_out_loop inp acc angn;
          angle = sweep_angle inp angn;
          BCont' = (if 0 < NofM acc
                    then vec3_muls (dmul (ddiv (Fin 1) (SumOfWeights acc)) (Fin (7769376 / 10 ^ 6)))
                           (vec3_sub (vec3_muls (dcos angle) (CBCont acc))
                                     (vec3_muls (dsin angle) (SBCont acc)))
                    else BCont)
      in (BCont', out @ [vx BCont', vy BCont', vz BCont']))"

subsection \<open>The whole function\<close>

record fis_output =
  out_field_cont :: "dbl list"
  out_field_dip :: "dbl list"
  out_field_lor :: "dbl list"
  printed :: "message list"

definition FastIncommSum :: "externals \<Rightarrow> fis_input \<Rightarrow> fis_output" where
  "FastIncommSum L inp =
     (let su = fis_geometry L inp;
          h = helix_decomposition L inp su;
          st = lattice_reduction L inp su h;
          (dip, lor) = dip_lor_loop inp h st (in_nangles inp);
          acc = contact_loop L (CCont st) (SCont st) (nnn_for_cont inp);
          (BCont, cont) = cont_out_loop inp acc (in_nangles inp)
      in \<lparr>out_field_cont = cont, out_field_dip = dip, out_field_lor = lor,
          printed = helix_out h @ contact_out acc\<rparr>)"

text \<open>The vector that an output array holds for the angle of index \<open>n\<close>.\<close>

definition out_vec :: "dbl list \<Rightarrow> nat \<Rightarrow> vec3" where
  "out_vec out n = \<lparr>vx = out ! (3 * n + 0), vy = out ! (3 * n + 1), vz = out ! (3 * n + 2)\<rparr>"

section \<open>Notions used to state the properties\<close>

text \<open>The componentwise quotient of a vector by a number, and the vector of three NaN.\<close>

definition vec3_over :: "vec3 \<Rightarrow> dbl \<Rightarrow> vec3" where
  "vec3_over v m = \<lparr>vx = ddiv (vx v) m, vy = ddiv (vy v) m, vz = ddiv (vz v) m\<rparr>"

definition nan_vec :: vec3 where
  "nan_vec = \<lparr>vx = NaN, vy = NaN, vz = NaN\<rparr>"

definition fin_vec :: "real \<Rightarrow> real \<Rightarrow> real \<Rightarrow> vec3" where
  "fin_vec a b c = \<lparr>vx = Fin a, vy = Fin b, vz = Fin c\<rparr>"

text \<open>A finite number whose magnitude is at most \<open>b\<close>.\<close>

fun magnitude_within :: "real \<Rightarrow> dbl \<Rightarrow> bool" where
  "magnitude_within b (Fin x) = (\<bar>x\<bar> \<le> b)"
| "magnitude_within b PInf = False"
| "magnitude_within b NInf = False"
| "magnitude_within b NaN = False"

text \<open>What the pass of the helix decomposition for atom \<open>a\<close> prints.\<close>

definition helix_msgs :: "externals \<Rightarrow> fis_input \<Rightarrow> nat \<Rightarrow> message list" where
  "helix_msgs L inp a =
     (let A = vec3_muls (ddiv (Fin 1) (vec3_norm (fc_re inp a))) (fc_re inp a);
          B = vec3_muls (ddiv (Fin 1) (vec3_norm (fc_im inp a))) (fc_im inp a)
      in (if dgt (dfabs (dsub (vec3_norm (fc_re inp a)) (vec3_norm (fc_im inp a)))) (EPS L)
          then [StagMomDiffers a] else []) @
         (if dgt (dfabs (vec3_dot A B)) (EPS L) then [NotOrthogonal a (vec3_dot A B)] else []) @
         (if dgt (dfabs (in_phi inp a)) (EPS L) then [PhiNotTested] else []))"

text \<open>The accumulator arrays have one entry for each atom.\<close>

definition accum_sized :: "nat \<Rightarrow> accum \<Rightarrow> bool" where
  "accum_sized n st \<longleftrightarrow>
     length (CDip st) = n \<and> length (SDip st) = n \<and> length (CLor st) = n \<and> length (SLor st) = n"




text \<open>
  The entries of a pile as a list of pairs of a finite rank and a vector: the insertion of
  an entry behind the entries whose rank is not larger, the pile that holds a list of
  entries in its first positions, and the pile after a sequence of insertions into the
  empty pile.
\<close>

fun pile_ins :: "real \<times> vec3 \<Rightarrow> (real \<times> vec3) list \<Rightarrow> (real \<times> vec3) list" where
  "pile_ins e [] = [e]"
| "pile_ins e (y # ys) = (if fst y \<le> fst e then y # pile_ins e ys else e # y # ys)"

definition pile_of :: "nat \<Rightarrow> (real \<times> vec3) list \<Rightarrow> pile" where
  "pile_of K es =
     \<lparr>nElements = K,
      ranks = map (\<lambda>e. Fin (fst e)) es @ replicate (K - length es) (Fin (- 1)),
      elements = map snd es @ replicate (K - length es) vec3_zero\<rparr>"

definition pile_fill :: "nat \<Rightarrow> (real \<times> vec3) list \<Rightarrow> pile" where
  "pile_fill K xs = foldl (\<lambda>p e. pile_add_element p (Fin (fst e)) (snd e)) (pile_init K) xs"

section \<open>An instance for evaluation\<close>

text \<open>
  The theorems below hold for every \<open>externals\<close>.  To evaluate the model on concrete
  arguments, the matrix functions that the spec names (matrix-vector multiply, matrix
  multiply, diagonal construction, inverse) are taken in their textbook form, and the two
  macros get the values \<open>10\<^sup>-\<^sup>1\<^sup>0\<close> and \<open>3\<close>.
\<close>

text \<open>
  Modelled from the spec: the matrix-vector multiply of \<^verbatim>\<open>mat3.h\<close>.  The vector is a row,
  multiplied from the left, so that a fractional position is taken to \<open>x a + y b + z c\<close>
  for the lattice vectors \<open>a\<close>, \<open>b\<close>, \<open>c\<close>.
\<close>

definition std_vmul :: "vec3 \<Rightarrow> mat3 \<Rightarrow> vec3" where
  "std_vmul v m =
     vec3_add (vec3_add (vec3_muls (vx v) (row_a m)) (vec3_muls (vy v) (row_b m)))
       (vec3_muls (vz v) (row_c m))"

text \<open>Modelled from the spec: the diagonal construction of \<^verbatim>\<open>mat3.h\<close>.\<close>

definition std_diag :: "dbl \<Rightarrow> dbl \<Rightarrow> dbl \<Rightarrow> mat3" where
  "std_diag p q r =
     \<lparr>row_a = \<lparr>vx = p, vy = Fin 0, vz = Fin 0\<rparr>,
      row_b = \<lparr>vx = Fin 0, vy = q, vz = Fin 0\<rparr>,
      row_c = \<lparr>vx = Fin 0, vy = Fin 0, vz = r\<rparr>\<rparr>"

text \<open>Modelled from the spec: the matrix multiply of \<^verbatim>\<open>mat3.h\<close>, row by row.\<close>

definition std_mul :: "mat3 \<Rightarrow> mat3 \<Rightarrow> mat3" where
  "std_mul m m' =
     \<lparr>row_a = std_vmul (row_a m) m', row_b = std_vmul (row_b m) m', row_c = std_vmul (row_c m) m'\<rparr>"

text \<open>Modelled from the spec: the cross product, from which the cofactors are read.\<close>

definition vec3_cross :: "vec3 \<Rightarrow> vec3 \<Rightarrow> vec3" where
  "vec3_cross v w =
     \<lparr>vx = dsub (dmul (vy v) (vz w)) (dmul (vz v) (vy w)),
      vy = dsub (dmul (vz v) (vx w)) (dmul (vx v) (vz w)),
      vz = dsub (dmul (vx v) (vy w)) (dmul (vy v) (vx w))\<rparr>"

text \<open>
  Modelled from the spec: the matrix inverse of \<^verbatim>\<open>mat3.h\<close>, the transposed matrix of
  cofactors divided by the determinant.
\<close>

definition std_inv :: "mat3 \<Rightarrow> mat3" where
  "std_inv m =
     (let p = vec3_cross (row_b m) (row_c m);
          q = vec3_cross (row_c m) (row_a m);
          r = vec3_cross (row_a m) (row_b m);
          det = vec3_dot (row_a m) p
      in \<lparr>row_a = \<lparr>vx = ddiv (vx p) det, vy = ddiv (vx q) det, vz = ddiv (vx r) det\<rparr>,
          row_b = \<lparr>vx = ddiv (vy p) det, vy = ddiv (vy q) det, vz = ddiv (vy r) det\<rparr>,
          row_c = \<lparr>vx = ddiv (vz p) det, vy = ddiv (vz q) det, vz = ddiv (vz r) det\<rparr>\<rparr>)"

text \<open>
  Modelled from the spec: the macros of \<^verbatim>\<open>config.h\<close>, which is not among the sources, with
  a tolerance of \<open>10\<^sup>-\<^sup>1\<^sup>0\<close> and a scaling power of \<open>3\<close>, and the matrix functions above.
\<close>

definition std_externals :: externals where
  "std_externals =
     \<lparr>EPS = Fin (1 / 10 ^ 10), CONT_SCALING_POWER = 3, mat3_inv = std_inv, mat3_mul = std_mul,
      mat3_diag = std_diag, mat3_vmul = std_vmul\<rparr>"

text \<open>An array of finite numbers, read by index.\<close>

definition seq_of :: "real list \<Rightarrow> nat \<Rightarrow> dbl" where
  "seq_of xs i = Fin (xs ! i)"

text \<open>
  One atom at the origin of the unit cube with the Fourier coefficient \<open>fc\<close>, no
  propagation vector and no phase; the muon sits at \<open>mu\<close>, the Lorentz radius is \<open>rad\<close>,
  one neighbour within \<open>crad\<close> enters the contact field, and one angle is sampled.
\<close>

definition one_atom :: "real list \<Rightarrow> real list \<Rightarrow> real \<Rightarrow> real \<Rightarrow> fis_input" where
  "one_atom fc mu rad crad =
     \<lparr>in_positions = seq_of [0, 0, 0], in_fc = seq_of fc,
      in_K = seq_of [0, 0, 0], in_phi = seq_of [0], in_muonpos = seq_of mu,
      in_supercell = (\<lambda>i. 1), in_cell = seq_of [1, 0, 0, 0, 1, 0, 0, 0, 1],
      radius = Fin rad, nnn_for_cont = 1, cont_radius = Fin crad, in_natoms = 1, in_nangles = 1\<rparr>"

text \<open>The identity matrix.\<close>

definition unit_mat :: mat3 where
  "unit_mat = \<lparr>row_a = fin_vec 1 0 0, row_b = fin_vec 0 1 0, row_c = fin_vec 0 0 1\<rparr>"

text \<open>
  The atom with the coefficient \<open>(1, 0, 0) + i (0, 1, 0)\<close> and the muon at distance 1 from
  it, inside a Lorentz sphere of radius 2; nothing is within the contact radius.
\<close>

definition probe_input :: fis_input where
  "probe_input = one_atom [1, 0, 0, 1, 0, 0] [1, 0, 0] 2 0"

text \<open>The same arrangement with the atom within the contact radius.\<close>

definition contact_input :: fis_input where
  "contact_input = one_atom [1, 0, 0, 1, 0, 0] [1, 0, 0] 2 2"

text \<open>The two arrangements with three angles sampled.\<close>

definition three_angle_probe :: fis_input where
  "three_angle_probe = probe_input\<lparr>in_nangles := 3\<rparr>"

definition three_angle_contact :: fis_input where
  "three_angle_contact = contact_input\<lparr>in_nangles := 3\<rparr>"

text \<open>Two piles of capacity 1 that hold different ranks at index 0.\<close>

definition odd_CCont :: pile where
  "odd_CCont = \<lparr>nElements = 1, ranks = [Fin 1], elements = [fin_vec 1 0 0]\<rparr>"

definition odd_SCont :: pile where
  "odd_SCont = \<lparr>nElements = 1, ranks = [Fin 2], elements = [fin_vec 0 1 0]\<rparr>"

text \<open>
  The muon at distance 1 from the atom with a Lorentz radius of one half, with a Lorentz
  radius of zero, and the muon on the atom inside a Lorentz and a contact radius of 2.
\<close>

definition far_input :: fis_input where
  "far_input = one_atom [1, 0, 0, 1, 0, 0] [1, 0, 0] (1 / 2) 0"

definition zero_radius_input :: fis_input where
  "zero_radius_input = one_atom [1, 0, 0, 1, 0, 0] [1, 0, 0] 0 0"

text \<open>The muon at distance 1 from the atom with the positive Lorentz radius \<open>2\<^sup>-\<^sup>4\<^sup>0\<^sup>0\<close>.\<close>

definition tiny_radius_input :: fis_input where
  "tiny_radius_input = one_atom [1, 0, 0, 1, 0, 0] [1, 0, 0] (1 / 2 ^ 400) 0"

definition coincident_input :: fis_input where
  "coincident_input = one_atom [1, 0, 0, 1, 0, 0] [0, 0, 0] 2 2"

text \<open>Four candidates for a pile, two of them with the same rank.\<close>

definition four_candidates :: "(real \<times> vec3) list" where
  "four_candidates =
     [(3, fin_vec 3 0 0), (1, fin_vec 1 0 0), (1, fin_vec 1 1 0), (2, fin_vec 2 0 0)]"


text \<open>The same atom with the coefficient \<open>0 + i (1, 0, 0)\<close>: its real part is zero.\<close>

definition zero_re_atom :: fis_input where
  "zero_re_atom = one_atom [0, 1, 0, 0, 0, 0] [1, 0, 0] 2 0"

section \<open>Facts about the numbers\<close>

lemma dmul_recip: "dmul (ddiv (Fin 1) m) v = ddiv v m"
  by (cases m; cases v) (auto simp: zero_less_divide_iff not_less)


lemma dmul_NaN_right [simp]: "dmul a NaN = NaN"
  by (cases a) simp_all

lemma dadd_NaN_right [simp]: "dadd a NaN = NaN"
  by (cases a) simp_all

lemma dsub_NaN [simp]: "dsub a NaN = NaN" "dsub NaN a = NaN"
  by (simp_all add: dsub_def)

lemma dsub_Fin [simp]: "dsub (Fin a) (Fin b) = Fin (a - b)"
  by (simp add: dsub_def)

lemma dlt_NaN_right [simp]: "\<not> dlt a NaN"
  by (cases a) simp_all

lemma vec3_muls_recip: "vec3_muls (ddiv (Fin 1) m) v = vec3_over v m"
  by (simp add: vec3_muls_def vec3_over_def dmul_recip)


lemma vec3_muls_nan [simp]: "vec3_muls a nan_vec = nan_vec"
  by (simp add: vec3_muls_def nan_vec_def)

lemma vec3_add_nan [simp]: "vec3_add v nan_vec = nan_vec" "vec3_add nan_vec v = nan_vec"
  by (simp_all add: vec3_add_def nan_vec_def)

lemma vec3_sub_nan [simp]: "vec3_sub v nan_vec = nan_vec" "vec3_sub nan_vec v = nan_vec"
  by (simp_all add: vec3_sub_def nan_vec_def)

lemma vec3_dot_nan [simp]: "vec3_dot nan_vec v = NaN" "vec3_dot v nan_vec = NaN"
  by (simp_all add: vec3_dot_def nan_vec_def)

lemma vec3_norm_zero [simp]: "vec3_norm vec3_zero = Fin 0"
  by (simp add: vec3_norm_def vec3_dot_def vec3_zero_def)

lemma vec3_over_zero_zero [simp]: "vec3_over vec3_zero (Fin 0) = nan_vec"
  by (simp add: vec3_over_def vec3_zero_def nan_vec_def)

text \<open>A norm is a non-negative number, plus infinity or not-a-number.\<close>

lemma vec3_norm_cases:
  "(\<exists>d. vec3_norm v = Fin d \<and> 0 \<le> d) \<or> vec3_norm v = PInf \<or> vec3_norm v = NaN"
  unfolding vec3_norm_def by (cases "vec3_dot v v") auto

lemma vec3_norm_not_below:
  assumes "radius' = Fin r" "r \<le> 0"
  shows "\<not> dlt (vec3_norm v) radius'"
  using vec3_norm_cases[of v] assms by auto

section \<open>Facts about single precision\<close>

lemma pow2_powr: "pow2 k = 2 powr real_of_int k"
  by (simp add: pow2_def powr_int)

lemma pow2_pos [simp]: "0 < pow2 k"
  by (simp add: pow2_powr)

lemma pow2_add: "pow2 (j + k) = pow2 j * pow2 k"
  by (simp add: pow2_powr powr_add)

lemma pow2_mono: "j \<le> k \<Longrightarrow> pow2 j \<le> pow2 k"
  by (simp add: pow2_powr)

lemma pow2_consts: "pow2 0 = 1" "pow2 23 = 2 ^ 23" "pow2 24 = 2 ^ 24" "pow2 127 = 2 ^ 127"
  by (simp_all add: pow2_def)

lemma pow2_shift: "pow2 (e + 1) = 2 ^ 24 * pow2 (e - 23)" "pow2 e = 2 ^ 23 * pow2 (e - 23)"
proof -
  have "e + 1 = 24 + (e - 23)" by arith
  then have "pow2 (e + 1) = pow2 (24 + (e - 23))" by (rule arg_cong)
  then show "pow2 (e + 1) = 2 ^ 24 * pow2 (e - 23)"
    unfolding pow2_add pow2_consts .
  have "e = 23 + (e - 23)" by arith
  then have "pow2 e = pow2 (23 + (e - 23))" by (rule arg_cong)
  then show "pow2 e = 2 ^ 23 * pow2 (e - 23)"
    unfolding pow2_add pow2_consts .
qed

lemma pow2_less_cancel: "pow2 j < pow2 k \<Longrightarrow> j < k"
  by (simp add: pow2_powr)

lemma float_exp_eq:
  assumes "pow2 k \<le> x" "x < pow2 (k + 1)" "- 126 \<le> k"
  shows "float_exp x = k"
proof -
  have x: "0 < x" using assms(1) pow2_pos[of k] by linarith
  have "\<lfloor>log 2 x\<rfloor> = k"
    using assms(1,2) x by (simp add: floor_log_eq_powr_iff pow2_powr)
  then show ?thesis using assms(3) by (simp add: float_exp_def)
qed

lemma float_exp_bounds:
  assumes "0 < x"
  shows "x < pow2 (float_exp x + 1)" and "pow2 \<lfloor>log 2 x\<rfloor> \<le> x"
    and "\<lfloor>log 2 x\<rfloor> \<le> float_exp x"
proof -
  have b: "pow2 \<lfloor>log 2 x\<rfloor> \<le> x \<and> x < pow2 (\<lfloor>log 2 x\<rfloor> + 1)"
    using floor_log_eq_powr_iff[of x 2 "\<lfloor>log 2 x\<rfloor>"] assms by (simp add: pow2_powr)
  show "pow2 \<lfloor>log 2 x\<rfloor> \<le> x" using b by simp
  show le: "\<lfloor>log 2 x\<rfloor> \<le> float_exp x" by (simp add: float_exp_def)
  have "pow2 (\<lfloor>log 2 x\<rfloor> + 1) \<le> pow2 (float_exp x + 1)"
    using le by (intro pow2_mono) simp
  with b show "x < pow2 (float_exp x + 1)" by linarith
qed

lemma rne_bounds: "\<lfloor>x\<rfloor> \<le> rne x" "rne x \<le> \<lfloor>x\<rfloor> + 1"
  by (simp_all add: rne_def)

lemma rne_of_int [simp]: "rne (of_int m) = m"
  by (simp add: rne_def)

lemma rne_numeral [simp]: "rne (numeral n) = numeral n" "rne 0 = 0" "rne 1 = 1"
  using rne_of_int[of "numeral n"] rne_of_int[of 0] rne_of_int[of 1] by simp_all

lemma rne_real_bounds: "x - 1 < of_int (rne x)" "of_int (rne x) \<le> x + 1"
proof -
  have "real_of_int \<lfloor>x\<rfloor> \<le> of_int (rne x)" "real_of_int (rne x) \<le> of_int (\<lfloor>x\<rfloor> + 1)"
    using rne_bounds[of x] by (simp_all only: of_int_le_iff)
  then show "x - 1 < of_int (rne x)" "of_int (rne x) \<le> x + 1" by linarith+
qed

lemma rne_near:
  assumes "of_int m - 1 / 2 < x" "x < of_int m + 1 / 2"
  shows "rne x = m"
proof -
  have "\<lfloor>x\<rfloor> = m \<or> \<lfloor>x\<rfloor> = m - 1" using assms by linarith
  then show ?thesis
  proof
    assume "\<lfloor>x\<rfloor> = m" then show ?thesis using assms by (simp add: rne_def)
  next
    assume f: "\<lfloor>x\<rfloor> = m - 1"
    then have "1 / 2 < x - of_int \<lfloor>x\<rfloor>" using assms by simp
    then show ?thesis using f by (simp add: rne_def)
  qed
qed

lemma rne_le_pow:
  assumes "0 \<le> z" "z < 2 ^ 24"
  shows "0 \<le> real_of_int (rne z)" "real_of_int (rne z) \<le> 2 ^ 24"
proof -
  have "0 \<le> \<lfloor>z\<rfloor>" using assms(1) by simp
  then have "0 \<le> rne z" using rne_bounds(1)[of z] by linarith
  then show "0 \<le> real_of_int (rne z)" by simp
  have "\<lfloor>z\<rfloor> < 2 ^ 24" using assms(2) by (simp add: floor_less_iff)
  then have "rne z \<le> 2 ^ 24" using rne_bounds(2)[of z] by linarith
  then have "real_of_int (rne z) \<le> of_int (2 ^ 24)" by (simp only: of_int_le_iff)
  then show "real_of_int (rne z) \<le> 2 ^ 24" by simp
qed

lemma rne_ge_pow:
  assumes "2 ^ 23 \<le> z"
  shows "2 ^ 23 \<le> real_of_int (rne z)"
proof -
  have "2 ^ 23 \<le> \<lfloor>z\<rfloor>" using assms by (simp add: le_floor_iff)
  then have "2 ^ 23 \<le> rne z" using rne_bounds(1)[of z] by linarith
  then have "real_of_int (2 ^ 23) \<le> of_int (rne z)" by (simp only: of_int_le_iff)
  then show ?thesis by simp
qed

lemma fl32_pos_finite:
  assumes "0 < x" "x < 2 ^ 127"
  obtains y where "fl32_pos x = Fin y" "0 \<le> y" "y \<le> 2 ^ 127"
proof -
  define e where "e = float_exp x"
  define ulp where "ulp = pow2 (e - 23)"
  define z where "z = x / ulp"
  define y where "y = of_int (rne z) * ulp"
  have ulp: "0 < ulp" by (simp add: ulp_def)
  have "pow2 \<lfloor>log 2 x\<rfloor> < pow2 127"
    using float_exp_bounds(2)[OF assms(1)] assms(2) by (simp add: pow2_consts)
  then have "\<lfloor>log 2 x\<rfloor> < 127" by (rule pow2_less_cancel)
  then have e: "e \<le> 126" by (simp add: float_exp_def e_def)
  have "x < pow2 (e + 1)" using float_exp_bounds(1)[OF assms(1)] by (simp add: e_def)
  then have "x < 2 ^ 24 * ulp" by (simp only: pow2_shift(1) ulp_def)
  then have z: "z < 2 ^ 24" using ulp by (simp add: z_def pos_divide_less_eq)
  have z0: "0 \<le> z" using assms(1) ulp by (simp add: z_def)
  note m = rne_le_pow[OF z0 z]
  have "y \<le> 2 ^ 24 * ulp"
    unfolding y_def using m(2) ulp by (intro mult_right_mono) simp_all
  also have "\<dots> = pow2 (e + 1)" by (simp only: pow2_shift(1) ulp_def)
  also have "\<dots> \<le> pow2 127" using e by (intro pow2_mono) simp
  finally have y: "y \<le> 2 ^ 127" by (simp add: pow2_consts)
  have y0: "0 \<le> y" unfolding y_def using m(1) ulp by simp
  have "fl32_pos x = Fin y"
    using y by (simp add: fl32_pos_def Let_def y_def z_def ulp_def e_def)
  then show ?thesis using y y0 that by blast
qed

lemma fl32_pos_ge_one:
  assumes "1 \<le> x" "fl32_pos x = Fin y"
  shows "1 \<le> y" and "y \<le> 2 * x"
proof -
  define e where "e = float_exp x"
  define ulp where "ulp = pow2 (e - 23)"
  define z where "z = x / ulp"
  have ulp: "0 < ulp" by (simp add: ulp_def)
  have x: "0 < x" using assms(1) by simp
  have l: "0 \<le> \<lfloor>log 2 x\<rfloor>" using assms(1) by simp
  then have e: "e = \<lfloor>log 2 x\<rfloor>" by (simp add: float_exp_def e_def)
  have pe: "pow2 e \<le> x" using float_exp_bounds(2)[OF x] e by simp
  then have "2 ^ 23 * ulp \<le> x" by (simp only: pow2_shift(2)[of e] ulp_def)
  then have z: "2 ^ 23 \<le> z" using ulp by (simp add: z_def pos_le_divide_eq)
  note m = rne_ge_pow[OF z]
  have "1 \<le> pow2 e" using l e pow2_mono[of 0 e] by (simp add: pow2_consts)
  also have "\<dots> = 2 ^ 23 * ulp" by (simp only: pow2_shift(2)[of e] ulp_def)
  also have "\<dots> \<le> of_int (rne z) * ulp"
    using m ulp by (intro mult_right_mono) simp_all
  finally have one: "1 \<le> of_int (rne z) * ulp" .
  have y: "y = of_int (rne z) * ulp"
    using assms(2) by (simp add: fl32_pos_def Let_def z_def ulp_def e_def split: if_splits)
  show "1 \<le> y" using one y by simp
  have "of_int (rne z) * ulp \<le> (z + 1) * ulp"
    using rne_real_bounds(2)[of z] ulp by (intro mult_right_mono) simp_all
  also have "\<dots> = x + ulp" using ulp by (simp add: z_def algebra_simps)
  also have "ulp \<le> 2 ^ 23 * ulp" using ulp by simp
  also have "2 ^ 23 * ulp = pow2 e" by (simp only: pow2_shift(2)[of e] ulp_def)
  also have "pow2 e \<le> x" by (rule pe)
  finally show "y \<le> 2 * x" using y by simp
qed

lemma fl32_pos_eval:
  assumes "pow2 k \<le> x" "x < pow2 (k + 1)" "- 126 \<le> k"
    and "rne (x / pow2 (k - 23)) = m" and "y = of_int m * pow2 (k - 23)" and "y < 2 ^ 128"
  shows "fl32_pos x = Fin y"
  using assms(4-6) float_exp_eq[OF assms(1-3)] by (simp add: fl32_pos_def Let_def)

lemma pow2_eval: "pow2 (numeral n) = 2 ^ numeral n" "pow2 (- numeral n) = 1 / 2 ^ numeral n"
  "pow2 0 = 1" "pow2 1 = 2" "pow2 (- 1) = 1 / 2"
  by (simp_all add: pow2_def)

lemma fl32_0 [simp]: "fl32 0 = Fin 0"
  by (simp add: fl32_def)

lemma fl32_1 [simp]: "fl32 1 = Fin 1"
proof -
  have "fl32_pos 1 = Fin 1"
    by (rule fl32_pos_eval[where k = 0 and m = "2 ^ 23"]) (simp_all add: pow2_eval)
  then show ?thesis by (simp add: fl32_def)
qed

lemma fl32_2 [simp]: "fl32 2 = Fin 2"
proof -
  have "fl32_pos 2 = Fin 2"
    by (rule fl32_pos_eval[where k = 1 and m = "2 ^ 23"]) (simp_all add: pow2_eval)
  then show ?thesis by (simp add: fl32_def)
qed

lemma fl32_3 [simp]: "fl32 3 = Fin 3"
proof -
  have "fl32_pos 3 = Fin 3"
    by (rule fl32_pos_eval[where k = 1 and m = "3 * 2 ^ 22"]) (simp_all add: pow2_eval)
  then show ?thesis by (simp add: fl32_def)
qed

text \<open>One third is not a \<^verbatim>\<open>float\<close>: the nearest one is \<open>11184811 / 2\<^sup>2\<^sup>5\<close>, a little above.\<close>

lemma fl32_third: "fl32 (1 / 3) = Fin (11184811 / 33554432)"
proof -
  have r: "rne (33554432 / 3) = 11184811"
    by (rule rne_near) simp_all
  have "fl32_pos (1 / 3) = Fin (11184811 / 33554432)"
    by (rule fl32_pos_eval[where k = "- 2" and m = 11184811]) (simp_all add: pow2_eval r)
  then show ?thesis by (simp add: fl32_def)
qed

lemma to_float_small [simp]:
  "to_float 0 = Fin 0" "to_float (Suc 0) = Fin 1" "to_float 1 = Fin 1" "to_float 2 = Fin 2"
  "to_float 3 = Fin 3"
  by (simp_all add: to_float_def)

lemma fdiv_small [simp]:
  "fdiv (Fin 0) (Fin 1) = Fin 0" "fdiv (Fin 0) (Fin 3) = Fin 0"
  "fdiv (Fin 1) (Fin 3) = Fin (11184811 / 33554432)"
  by (simp_all add: fdiv_def fl32_third)

text \<open>
  A counter below \<open>2\<^sup>3\<^sup>2\<close> is converted to a finite number, which is at least 1 unless the
  counter is zero; and the quotient of a counter by a positive one is finite.
\<close>

lemma to_float_finite:
  assumes "n < 2 ^ 32"
  obtains y where "to_float n = Fin y" "0 \<le> y" "y < 2 ^ 127" "0 < n \<Longrightarrow> 1 \<le> y"
proof (cases "n = 0")
  case True
  then have "to_float n = Fin 0" by simp
  then show ?thesis using that True by simp
next
  case False
  then have pos: "0 < real n" "1 \<le> real n" by simp_all
  have "real n < real (2 ^ 32)" using assms by (simp only: of_nat_less_iff)
  then have n32: "real n < 2 ^ 32" by simp
  also have "(2::real) ^ 32 < 2 ^ 127" by simp
  finally have lt: "real n < 2 ^ 127" .
  obtain y where y: "fl32_pos (real n) = Fin y"
    using fl32_pos_finite[OF pos(1) lt] by blast
  note b = fl32_pos_ge_one[OF pos(2) y]
  have "y < 2 * 2 ^ 32" using b(2) n32 by linarith
  also have "(2::real) * 2 ^ 32 < 2 ^ 127" by simp
  finally have "y < 2 ^ 127" .
  moreover have "to_float n = Fin y" using y pos(1) by (simp add: to_float_def fl32_def)
  ultimately show ?thesis using that b(1) by simp
qed

lemma fdiv_counters_finite:
  assumes "n < 2 ^ 32" "N < 2 ^ 32" "0 < N"
  shows "is_finite (fdiv (to_float n) (to_float N))"
proof -
  obtain x where x: "to_float n = Fin x" "0 \<le> x" "x < 2 ^ 127"
    using to_float_finite[OF assms(1)] by blast
  obtain y where y: "to_float N = Fin y" "1 \<le> y"
    using to_float_finite[OF assms(2)] assms(3) by blast
  have q: "ddiv (Fin x) (Fin y) = Fin (x / y)" using y(2) by simp
  show ?thesis
  proof (cases "x / y = 0")
    case True
    have "fdiv (to_float n) (to_float N) = fl32 (x / y)"
      by (simp add: fdiv_def x y q del: ddiv.simps)
    also have "\<dots> = Fin 0" unfolding True by (rule fl32_0)
    finally show ?thesis by simp
  next
    case False
    then have p: "0 < x / y" using x(2) y(2) by (simp add: less_le)
    have "x / y \<le> x" using x(2) y(2) by (simp add: divide_le_eq mult_le_cancel_left1)
    also note x(3)
    finally have lt: "x / y < 2 ^ 127" .
    obtain z where "fl32_pos (x / y) = Fin z" using fl32_pos_finite[OF p lt] by blast
    then show ?thesis using p by (simp add: fdiv_def x y q fl32_def del: ddiv.simps)
  qed
qed

lemma sweep_angle_finite:
  assumes "n < in_nangles inp" "in_nangles inp < 2 ^ 32"
  obtains t where "sweep_angle inp n = Fin t"
proof -
  have "n < 2 ^ 32" "0 < in_nangles inp" using assms by simp_all
  then have "is_finite (fdiv (to_float n) (to_float (in_nangles inp)))"
    using assms(2) by (intro fdiv_counters_finite)
  then obtain q where "fdiv (to_float n) (to_float (in_nangles inp)) = Fin q"
    by (cases "fdiv (to_float n) (to_float (in_nangles inp))") simp_all
  then have "sweep_angle inp n = Fin (2 * pi * q)" by (simp add: sweep_angle_def)
  then show ?thesis using that by blast
qed

text \<open>The range of \<^verbatim>\<open>pow\<close>.\<close>

lemma dpow_Fin: "dpow (Fin d) e = (if e = 0 then Fin 1 else pow_range (d ^ e))"
  by (cases e) simp_all

lemma pow_range_small [simp]:
  "pow_range 0 = Fin 0" "pow_range 1 = Fin 1" "pow_range 8 = Fin 8"
  by (simp_all add: pow_range_def)

lemma dpow_small [simp]:
  "dpow (Fin 0) 3 = Fin 0" "dpow (Fin 1) 3 = Fin 1" "dpow (Fin 2) 3 = Fin 8"
  by (simp_all add: dpow_Fin)

section \<open>The helix decomposition\<close>

lemma helix_loop_stagmom:
  "stagmom (helix_loop L inp su n) = map (\<lambda>a. vec3_norm (fc_re inp a)) [0..<n]"
  by (induction n) (simp_all add: helix_body_def Let_def)

lemma helix_loop_Ahelix:
  "Ahelix (helix_loop L inp su n) =
     map (\<lambda>a. vec3_muls (ddiv (Fin 1) (vec3_norm (fc_re inp a))) (fc_re inp a)) [0..<n]"
  by (induction n) (simp_all add: helix_body_def Let_def)

lemma helix_loop_Bhelix:
  "Bhelix (helix_loop L inp su n) =
     map (\<lambda>a. vec3_muls (ddiv (Fin 1) (vec3_norm (fc_im inp a))) (fc_im inp a)) [0..<n]"
  by (induction n) (simp_all add: helix_body_def Let_def)

lemma helix_loop_refatmpos:
  "refatmpos (helix_loop L inp su n) =
     map (\<lambda>a. mat3_vmul L
                 (reduced (in_positions inp) (3 * a)
                    (half_cells (scx su)) (half_cells (scy su)) (half_cells (scz su))
                    (scx su) (scy su) (scz su)) (sc_lat su)) [0..<n]"
  by (induction n) (simp_all add: helix_body_def Let_def)

lemma helix_loop_out:
  "helix_out (helix_loop L inp su n) = concat (map (helix_msgs L inp) [0..<n])"
  by (induction n) (simp_all add: helix_body_def helix_msgs_def Let_def)


lemma helix_length:
  "length (stagmom (helix_decomposition L inp su)) = in_natoms inp"
  "length (Ahelix (helix_decomposition L inp su)) = in_natoms inp"
  "length (Bhelix (helix_decomposition L inp su)) = in_natoms inp"
  "length (refatmpos (helix_decomposition L inp su)) = in_natoms inp"
  by (simp_all add: helix_decomposition_def helix_loop_stagmom helix_loop_Ahelix
      helix_loop_Bhelix helix_loop_refatmpos)

lemma helix_nth:
  assumes "a < in_natoms inp"
  shows "stagmom (helix_decomposition L inp su) ! a = vec3_norm (fc_re inp a)"
    and "Ahelix (helix_decomposition L inp su) ! a = vec3_over (fc_re inp a) (vec3_norm (fc_re inp a))"
    and "Bhelix (helix_decomposition L inp su) ! a = vec3_over (fc_im inp a) (vec3_norm (fc_im inp a))"
  using assms
  by (simp_all add: helix_decomposition_def helix_loop_stagmom helix_loop_Ahelix
      helix_loop_Bhelix vec3_muls_recip)

lemma helix_out_eq:
  "helix_out (helix_decomposition L inp su) = concat (map (helix_msgs L inp) [0..<in_natoms inp])"
  by (simp add: helix_decomposition_def helix_loop_out)

lemma helix_msgs_atom:
  "StagMomDiffers a \<in> set (helix_msgs L inp b) \<longleftrightarrow>
     b = a \<and> dgt (dfabs (dsub (vec3_norm (fc_re inp a)) (vec3_norm (fc_im inp a)))) (EPS L)"
  "NotOrthogonal a v \<in> set (helix_msgs L inp b) \<longleftrightarrow>
     b = a \<and> v = vec3_dot (vec3_over (fc_re inp a) (vec3_norm (fc_re inp a)))
                          (vec3_over (fc_im inp a) (vec3_norm (fc_im inp a)))
     \<and> dgt (dfabs v) (EPS L)"
  by (auto simp: helix_msgs_def Let_def vec3_muls_recip)

lemma helix_out_StagMomDiffers:
  "StagMomDiffers a \<in> set (helix_out (helix_decomposition L inp su)) \<longleftrightarrow>
     a < in_natoms inp \<and> dgt (dfabs (dsub (vec3_norm (fc_re inp a)) (vec3_norm (fc_im inp a)))) (EPS L)"
  by (auto simp: helix_out_eq helix_msgs_atom)

lemma helix_out_NotOrthogonal:
  "NotOrthogonal a v \<in> set (helix_out (helix_decomposition L inp su)) \<longleftrightarrow>
     a < in_natoms inp \<and> v = vec3_dot (vec3_over (fc_re inp a) (vec3_norm (fc_re inp a)))
                          (vec3_over (fc_im inp a) (vec3_norm (fc_im inp a)))
     \<and> dgt (dfabs v) (EPS L)"
  by (auto simp: helix_out_eq helix_msgs_atom)

text \<open>
  Claim C6.  For every atom \<open>a\<close> below \<^verbatim>\<open>in_natoms\<close>, with the real part of its Fourier
  coefficient read at the offsets \<open>6a\<close>, \<open>6a + 2\<close>, \<open>6a + 4\<close> and the imaginary part at
  \<open>6a + 1\<close>, \<open>6a + 3\<close>, \<open>6a + 5\<close> of \<^verbatim>\<open>in_fc\<close>: \<^verbatim>\<open>stagmom[a]\<close> is the norm of the real part,
  \<^verbatim>\<open>Ahelix[a]\<close> is the real part divided by \<^verbatim>\<open>stagmom[a]\<close>, and \<^verbatim>\<open>Bhelix[a]\<close> is the
  imaginary part divided by its own norm.
\<close>

theorem helix_decomposition_layout:
  assumes "a < in_natoms inp"
  shows "let h = helix_decomposition L inp su;
             re = \<lparr>vx = in_fc inp (6 * a), vy = in_fc inp (6 * a + 2), vz = in_fc inp (6 * a + 4)\<rparr>;
             im = \<lparr>vx = in_fc inp (6 * a + 1), vy = in_fc inp (6 * a + 3),
                   vz = in_fc inp (6 * a + 5)\<rparr>
         in stagmom h ! a = vec3_norm re \<and> Ahelix h ! a = vec3_over re (stagmom h ! a) \<and>
            Bhelix h ! a = vec3_over im (vec3_norm im)"
  using helix_nth[OF assms, of L su] by (simp add: Let_def fc_re_def fc_im_def)

theorem helix_decomposition_layout_witness:
  "0 < in_natoms (one_atom [3, 0, 0, 2, 4, 0] [1, 0, 0] 2 0) \<and>
   (let inp = one_atom [3, 0, 0, 2, 4, 0] [1, 0, 0] 2 0;
        h = helix_decomposition std_externals inp (fis_geometry std_externals inp)
    in stagmom h ! 0 = Fin 5 \<and> Ahelix h ! 0 = fin_vec (3 / 5) 0 (4 / 5) \<and>
       Bhelix h ! 0 = fin_vec 0 1 0)"
proof -
  let ?inp = "one_atom [3, 0, 0, 2, 4, 0] [1, 0, 0] 2 0"
  have pos: "0 < in_natoms ?inp" by (simp add: one_atom_def)
  have five: "sqrt 25 = 5" using real_sqrt_abs[of 5] by simp
  show ?thesis
    using helix_decomposition_layout[OF pos, of std_externals "fis_geometry std_externals ?inp"]
    by (simp add: Let_def one_atom_def seq_of_def vec3_norm_def vec3_dot_def vec3_over_def
        fin_vec_def five)
qed

section \<open>The whole function: what it prints, how much it writes\<close>

lemma dip_lor_loop_length:
  "length (fst (dip_lor_loop inp h st n)) = 3 * n \<and> length (snd (dip_lor_loop inp h st n)) = 3 * n"
  by (induction n) (simp_all add: split_beta Let_def)

lemma cont_out_loop_length: "length (snd (cont_out_loop inp acc n)) = 3 * n"
  by (induction n) (simp_all add: split_beta Let_def)

lemma FastIncommSum_printed:
  "printed (FastIncommSum L inp) =
     helix_out (helix_decomposition L inp (fis_geometry L inp)) @
     contact_out (contact_loop L
       (CCont (lattice_reduction L inp (fis_geometry L inp)
                 (helix_decomposition L inp (fis_geometry L inp))))
       (SCont (lattice_reduction L inp (fis_geometry L inp)
                 (helix_decomposition L inp (fis_geometry L inp))))
       (nnn_for_cont inp))"
  by (simp add: FastIncommSum_def Let_def split_beta)

lemma FastIncommSum_lengths:
  "length (out_field_cont (FastIncommSum L inp)) = 3 * in_nangles inp"
  "length (out_field_dip (FastIncommSum L inp)) = 3 * in_nangles inp"
  "length (out_field_lor (FastIncommSum L inp)) = 3 * in_nangles inp"
  by (simp_all add: FastIncommSum_def Let_def split_beta dip_lor_loop_length cont_out_loop_length)



section \<open>A coefficient with a zero part\<close>

lemma vec3_over_nan [simp]: "vec3_over nan_vec m = nan_vec"
  by (simp add: vec3_over_def nan_vec_def)

lemma zero_part_NotOrthogonal:
  assumes "fc_re inp a = vec3_zero \<or> fc_im inp a = vec3_zero"
  shows "NotOrthogonal a v \<notin> set (helix_out (helix_decomposition L inp su))"
  using assms by (auto simp: helix_out_NotOrthogonal dgt_def)

lemma helix_pass_out:
  "helix_out (helix_loop L inp su (Suc a)) = helix_out (helix_loop L inp su a) @ helix_msgs L inp a"
  unfolding helix_loop_out by simp

lemma zero_part_msgs:
  assumes "fc_re inp a = vec3_zero \<or> fc_im inp a = vec3_zero"
  shows "helix_msgs L inp a =
           (if dgt (dfabs (dsub (vec3_norm (fc_re inp a)) (vec3_norm (fc_im inp a)))) (EPS L)
            then [StagMomDiffers a] else []) @
           (if dgt (dfabs (in_phi inp a)) (EPS L) then [PhiNotTested] else [])"
  using assms by (auto simp: helix_msgs_def Let_def vec3_muls_recip dgt_def)

lemma norm_against_zero:
  "dfabs (dsub (Fin 0) (vec3_norm v)) = vec3_norm v"
  "dfabs (dsub (vec3_norm v) (Fin 0)) = vec3_norm v"
  using vec3_norm_cases[of v] by (auto simp: dsub_def)

text \<open>
  Claim C10, as amended.  The helix decomposition divides by the two norms without a test:
  for an atom whose real part is exactly zero, \<^verbatim>\<open>stagmom[a]\<close> is zero and every component of
  \<^verbatim>\<open>Ahelix[a]\<close> is not-a-number; for an atom whose imaginary part is exactly zero, every
  component of \<^verbatim>\<open>Bhelix[a]\<close> is not-a-number; in either case the moment-weighted vectors
  offered to the contact piles are not-a-number too.  The pass for such an atom never
  prints the message about orthogonality; it prints the message about the two norms
  exactly when they differ by more than \<^verbatim>\<open>EPS\<close>, and the warning about the phase exactly when
  \<open>|phi[a]|\<close> exceeds \<^verbatim>\<open>EPS\<close>, and nothing else.  So the message about the norms is printed
  when one part is zero and the norm of the other exceeds \<^verbatim>\<open>EPS\<close>, and with both parts zero
  it is printed only for a negative \<^verbatim>\<open>EPS\<close>.
\<close>

theorem zero_part_unguarded:
  assumes "a < in_natoms inp"
  shows "let h = helix_decomposition L inp su;
             differ = dgt (dfabs (dsub (vec3_norm (fc_re inp a)) (vec3_norm (fc_im inp a))))
                        (EPS L)
         in (fc_re inp a = vec3_zero \<longrightarrow> stagmom h ! a = Fin 0 \<and> Ahelix h ! a = nan_vec) \<and>
            (fc_im inp a = vec3_zero \<longrightarrow> Bhelix h ! a = nan_vec) \<and>
            (fc_re inp a = vec3_zero \<or> fc_im inp a = vec3_zero \<longrightarrow>
               (\<forall>c s. vec3_add (vec3_muls (dmul (stagmom h ! a) c) (Ahelix h ! a))
                               (vec3_muls (dmul (stagmom h ! a) s) (Bhelix h ! a)) = nan_vec) \<and>
               (\<forall>c s. vec3_sub (vec3_muls (dmul (stagmom h ! a) s) (Ahelix h ! a))
                               (vec3_muls (dmul (stagmom h ! a) c) (Bhelix h ! a)) = nan_vec) \<and>
               helix_out (helix_loop L inp su (Suc a)) =
                 helix_out (helix_loop L inp su a) @
                 (if differ then [StagMomDiffers a] else []) @
                 (if dgt (dfabs (in_phi inp a)) (EPS L) then [PhiNotTested] else []) \<and>
               (\<forall>v. NotOrthogonal a v \<notin> set (helix_out h)) \<and>
               (StagMomDiffers a \<in> set (helix_out h) \<longleftrightarrow> differ)) \<and>
            (fc_re inp a = vec3_zero \<longrightarrow> (differ \<longleftrightarrow> dgt (vec3_norm (fc_im inp a)) (EPS L))) \<and>
            (fc_im inp a = vec3_zero \<longrightarrow> (differ \<longleftrightarrow> dgt (vec3_norm (fc_re inp a)) (EPS L))) \<and>
            (fc_re inp a = vec3_zero \<and> fc_im inp a = vec3_zero \<longrightarrow>
               (differ \<longleftrightarrow> dlt (EPS L) (Fin 0)))"
proof -
  let ?h = "helix_decomposition L inp su"
  have arrays: "fc_re inp a = vec3_zero \<longrightarrow> stagmom ?h ! a = Fin 0 \<and> Ahelix ?h ! a = nan_vec"
    "fc_im inp a = vec3_zero \<longrightarrow> Bhelix ?h ! a = nan_vec"
    using assms by (simp_all add: helix_nth)
  have weighted: "vec3_add (vec3_muls (dmul (stagmom ?h ! a) c) (Ahelix ?h ! a))
                    (vec3_muls (dmul (stagmom ?h ! a) s) (Bhelix ?h ! a)) = nan_vec"
    "vec3_sub (vec3_muls (dmul (stagmom ?h ! a) s) (Ahelix ?h ! a))
                    (vec3_muls (dmul (stagmom ?h ! a) c) (Bhelix ?h ! a)) = nan_vec"
    if "fc_re inp a = vec3_zero \<or> fc_im inp a = vec3_zero" for c s
    using that assms by (auto simp: helix_nth)
  have pass: "helix_out (helix_loop L inp su (Suc a)) =
                helix_out (helix_loop L inp su a) @
                (if dgt (dfabs (dsub (vec3_norm (fc_re inp a)) (vec3_norm (fc_im inp a)))) (EPS L)
                 then [StagMomDiffers a] else []) @
                (if dgt (dfabs (in_phi inp a)) (EPS L) then [PhiNotTested] else [])"
    if "fc_re inp a = vec3_zero \<or> fc_im inp a = vec3_zero"
    unfolding helix_pass_out zero_part_msgs[OF that] ..
  have orth: "NotOrthogonal a v \<notin> set (helix_out ?h)"
    if "fc_re inp a = vec3_zero \<or> fc_im inp a = vec3_zero" for v
    using that by (rule zero_part_NotOrthogonal)
  have norms: "StagMomDiffers a \<in> set (helix_out ?h) \<longleftrightarrow>
                 dgt (dfabs (dsub (vec3_norm (fc_re inp a)) (vec3_norm (fc_im inp a)))) (EPS L)"
    using assms by (simp add: helix_out_StagMomDiffers)
  have one: "fc_re inp a = vec3_zero \<longrightarrow>
               dfabs (dsub (vec3_norm (fc_re inp a)) (vec3_norm (fc_im inp a))) =
               vec3_norm (fc_im inp a)"
    "fc_im inp a = vec3_zero \<longrightarrow>
               dfabs (dsub (vec3_norm (fc_re inp a)) (vec3_norm (fc_im inp a))) =
               vec3_norm (fc_re inp a)"
    by (simp_all add: norm_against_zero)
  have both: "fc_re inp a = vec3_zero \<and> fc_im inp a = vec3_zero \<longrightarrow>
               dgt (dfabs (dsub (vec3_norm (fc_re inp a)) (vec3_norm (fc_im inp a)))) (EPS L) =
               dlt (EPS L) (Fin 0)"
    by (simp add: dgt_def)
  show ?thesis
    unfolding Let_def using arrays weighted pass orth norms one both by metis
qed

theorem zero_part_unguarded_witness:
  "(let inp = one_atom [0, 0, 0, 0, 0, 0] [1, 0, 0] 2 0;
        h = helix_decomposition std_externals inp (fis_geometry std_externals inp)
    in 0 < in_natoms inp \<and> fc_re inp 0 = vec3_zero \<and> fc_im inp 0 = vec3_zero \<and>
       stagmom h ! 0 = Fin 0 \<and> Ahelix h ! 0 = nan_vec \<and> Bhelix h ! 0 = nan_vec \<and>
       \<not> dlt (EPS std_externals) (Fin 0) \<and>
       helix_out (helix_loop std_externals inp (fis_geometry std_externals inp) (Suc 0)) = [] \<and>
       NotOrthogonal 0 NaN \<notin> set (helix_out h) \<and> StagMomDiffers 0 \<notin> set (helix_out h)) \<and>
   (let inp = zero_re_atom;
        h = helix_decomposition std_externals inp (fis_geometry std_externals inp)
    in 0 < in_natoms inp \<and> fc_re inp 0 = vec3_zero \<and> vec3_norm (fc_im inp 0) = Fin 1 \<and>
       dgt (Fin 1) (EPS std_externals) \<and>
       helix_out (helix_loop std_externals inp (fis_geometry std_externals inp) (Suc 0)) =
         [StagMomDiffers 0] \<and>
       StagMomDiffers 0 \<in> set (helix_out h))"
proof -
  let ?inp = "one_atom [0, 0, 0, 0, 0, 0] [1, 0, 0] 2 0"
  have pos: "0 < in_natoms ?inp" "0 < in_natoms zero_re_atom"
    by (simp_all add: one_atom_def zero_re_atom_def)
  have re: "fc_re ?inp 0 = vec3_zero" and im: "fc_im ?inp 0 = vec3_zero"
    by (simp_all add: fc_re_def fc_im_def one_atom_def seq_of_def vec3_zero_def)
  have re': "fc_re zero_re_atom 0 = vec3_zero" and im': "fc_im zero_re_atom 0 = fin_vec 1 0 0"
    by (simp_all add: fc_re_def fc_im_def zero_re_atom_def one_atom_def seq_of_def vec3_zero_def
        fin_vec_def)
  have ni: "vec3_norm (fin_vec 1 0 0) = Fin 1"
    by (simp add: vec3_norm_def vec3_dot_def fin_vec_def)
  have nz: "fin_vec 1 0 0 \<noteq> vec3_zero"
    by (simp add: fin_vec_def vec3_zero_def)
  have e: "EPS std_externals = Fin (1 / 10 ^ 10)"
    by (simp add: std_externals_def)
  have phi: "in_phi ?inp 0 = Fin 0" "in_phi zero_re_atom 0 = Fin 0"
    by (simp_all add: zero_re_atom_def one_atom_def seq_of_def)
  have both: ?thesis if
    "let inp = ?inp; h = helix_decomposition std_externals inp (fis_geometry std_externals inp)
     in stagmom h ! 0 = Fin 0 \<and> Ahelix h ! 0 = nan_vec \<and> Bhelix h ! 0 = nan_vec \<and>
        helix_out (helix_loop std_externals inp (fis_geometry std_externals inp) (Suc 0)) = [] \<and>
        NotOrthogonal 0 NaN \<notin> set (helix_out h) \<and> StagMomDiffers 0 \<notin> set (helix_out h)"
    "let inp = zero_re_atom;
         h = helix_decomposition std_externals inp (fis_geometry std_externals inp)
     in helix_out (helix_loop std_externals inp (fis_geometry std_externals inp) (Suc 0)) =
          [StagMomDiffers 0] \<and>
        StagMomDiffers 0 \<in> set (helix_out h)"
    using that by (simp add: Let_def pos re im re' im' ni e dgt_def del: helix_loop.simps)
  show ?thesis
  proof (rule both)
    show "let inp = ?inp; h = helix_decomposition std_externals inp (fis_geometry std_externals inp)
     in stagmom h ! 0 = Fin 0 \<and> Ahelix h ! 0 = nan_vec \<and> Bhelix h ! 0 = nan_vec \<and>
        helix_out (helix_loop std_externals inp (fis_geometry std_externals inp) (Suc 0)) = [] \<and>
        NotOrthogonal 0 NaN \<notin> set (helix_out h) \<and> StagMomDiffers 0 \<notin> set (helix_out h)"
      using zero_part_unguarded[OF pos(1), of std_externals "fis_geometry std_externals ?inp"]
      by (simp add: Let_def re im e phi dgt_def del: helix_loop.simps) simp
    show "let inp = zero_re_atom;
         h = helix_decomposition std_externals inp (fis_geometry std_externals inp)
     in helix_out (helix_loop std_externals inp (fis_geometry std_externals inp) (Suc 0)) =
          [StagMomDiffers 0] \<and>
        StagMomDiffers 0 \<in> set (helix_out h)"
      using zero_part_unguarded[OF pos(2), of std_externals
          "fis_geometry std_externals zero_re_atom"]
      by (simp add: Let_def re' im' ni nz e phi dgt_def del: helix_loop.simps) simp
  qed
qed

text \<open>
  Claim C10, as stated, fails where only one part is zero: for the atom whose coefficient
  is \<open>0 + i (1, 0, 0)\<close> the vector \<^verbatim>\<open>Ahelix[0]\<close> is not-a-number and a message is printed,
  the one about the two norms.
\<close>

theorem zero_part_message_counterexample:
  "fc_re zero_re_atom 0 = vec3_zero \<and>
   Ahelix (helix_decomposition std_externals zero_re_atom
             (fis_geometry std_externals zero_re_atom)) ! 0 = nan_vec \<and>
   helix_out (helix_decomposition std_externals zero_re_atom
                (fis_geometry std_externals zero_re_atom)) = [StagMomDiffers 0]"
proof -
  have n: "in_natoms zero_re_atom = 1" by (simp add: zero_re_atom_def one_atom_def)
  have re: "fc_re zero_re_atom 0 = vec3_zero" and im: "fc_im zero_re_atom 0 = fin_vec 1 0 0"
    by (simp_all add: fc_re_def fc_im_def zero_re_atom_def one_atom_def seq_of_def vec3_zero_def
        fin_vec_def)
  have ni: "vec3_norm (fin_vec 1 0 0) = Fin 1"
    by (simp add: vec3_norm_def vec3_dot_def fin_vec_def)
  have e: "EPS std_externals = Fin (1 / 10 ^ 10)"
    by (simp add: std_externals_def)
  have phi: "in_phi zero_re_atom 0 = Fin 0"
    by (simp add: zero_re_atom_def one_atom_def seq_of_def)
  have A: "Ahelix (helix_decomposition std_externals zero_re_atom
             (fis_geometry std_externals zero_re_atom)) ! 0 = nan_vec"
    by (simp add: helix_nth n re)
  have out: "helix_out (helix_decomposition std_externals zero_re_atom
                (fis_geometry std_externals zero_re_atom)) = [StagMomDiffers 0]"
    by (simp add: helix_out_eq n helix_msgs_def Let_def re im e phi dgt_def vec3_muls_def
        vec3_norm_def vec3_dot_def vec3_zero_def fin_vec_def)
  show ?thesis using re A out by simp
qed

section \<open>The instance on the one-atom arguments\<close>

lemma std_vmul_unit [simp]: "std_vmul (fin_vec p q r) unit_mat = fin_vec p q r"
  by (simp add: std_vmul_def unit_mat_def fin_vec_def vec3_add_def vec3_muls_def)

lemma std_inv_unit [simp]: "std_inv unit_mat = unit_mat"
  by (simp add: std_inv_def unit_mat_def fin_vec_def vec3_cross_def vec3_dot_def Let_def)

lemma std_mul_diag_unit [simp]: "std_mul (std_diag (Fin 1) (Fin 1) (Fin 1)) unit_mat = unit_mat"
  by (simp add: std_mul_def std_diag_def std_vmul_def unit_mat_def fin_vec_def vec3_add_def
      vec3_muls_def)

lemma std_externals_simps [simp]:
  "EPS std_externals = Fin (1 / 10 ^ 10)" "CONT_SCALING_POWER std_externals = 3"
  "mat3_inv std_externals = std_inv" "mat3_mul std_externals = std_mul"
  "mat3_diag std_externals = std_diag" "mat3_vmul std_externals = std_vmul"
  by (simp_all add: std_externals_def)

lemma one_atom_simps [simp]:
  "in_positions (one_atom fc mu rad crad) = seq_of [0, 0, 0]"
  "in_fc (one_atom fc mu rad crad) = seq_of fc"
  "in_phi (one_atom fc mu rad crad) = seq_of [0]"
  "radius (one_atom fc mu rad crad) = Fin rad"
  "cont_radius (one_atom fc mu rad crad) = Fin crad"
  "nnn_for_cont (one_atom fc mu rad crad) = 1"
  "in_natoms (one_atom fc mu rad crad) = 1"
  "in_nangles (one_atom fc mu rad crad) = 1"
  by (simp_all add: one_atom_def)

lemma one_atom_geometry:
  "fis_geometry std_externals (one_atom fc [p, q, r] rad crad) =
     \<lparr>scx = 1, scy = 1, scz = 1, sc_lat = unit_mat, inv_sc_lat = unit_mat,
      muonpos = fin_vec p q r, Kvec = fin_vec 0 0 0\<rparr>"
proof -
  let ?X = "one_atom fc [p, q, r] rad crad"
  have c: "cell_lat ?X = unit_mat"
    by (simp add: cell_lat_def one_atom_def seq_of_def unit_mat_def fin_vec_def)
  have m: "reduced (in_muonpos ?X) 0 (Fin 0) (Fin 0) (Fin 0) (Suc 0) (Suc 0) (Suc 0) = fin_vec p q r"
    by (simp add: reduced_def one_atom_def seq_of_def fin_vec_def)
  have k: "\<lparr>vx = in_K ?X 0, vy = in_K ?X (Suc 0), vz = in_K ?X 2\<rparr> = fin_vec 0 0 0"
    by (simp add: one_atom_def seq_of_def fin_vec_def)
  have sc: "to_unsigned (in_supercell ?X i) = Suc 0" for i
    by (simp add: one_atom_def to_unsigned_def)
  show ?thesis
    by (simp add: fis_geometry_def Let_def c m k sc half_cells_def)
qed

lemma one_atom_tuple_r:
  "tuple_r std_externals (one_atom fc [p, q, r] rad crad)
     (fis_geometry std_externals (one_atom fc [p, q, r] rad crad)) 0 0 0 0 = fin_vec (- p) (- q) (- r)"
proof -
  have m: "reduced (seq_of [0, 0, 0]) 0 (Fin 0) (Fin 0) (Fin 0) (Suc 0) (Suc 0) (Suc 0) =
             fin_vec 0 0 0"
    by (simp add: reduced_def seq_of_def fin_vec_def)
  show ?thesis
    by (simp add: tuple_r_def tuple_atmpos_def one_atom_geometry m)
       (simp add: vec3_sub_def fin_vec_def)
qed

lemma helix_refatmpos_nth:
  assumes "a < in_natoms inp"
  shows "refatmpos (helix_decomposition L inp su) ! a =
           mat3_vmul L
             (reduced (in_positions inp) (3 * a)
                (half_cells (scx su)) (half_cells (scy su)) (half_cells (scz su))
                (scx su) (scy su) (scz su)) (sc_lat su)"
  using assms by (simp add: helix_decomposition_def helix_loop_refatmpos)

lemma one_atom_refatmpos:
  "refatmpos (helix_decomposition std_externals (one_atom fc [p, q, r] rad crad)
     (fis_geometry std_externals (one_atom fc [p, q, r] rad crad))) ! 0 = fin_vec 0 0 0"
proof -
  have m: "reduced (seq_of [0, 0, 0]) 0 (Fin 0) (Fin 0) (Fin 0) (Suc 0) (Suc 0) (Suc 0) =
             fin_vec 0 0 0"
    by (simp add: reduced_def seq_of_def fin_vec_def)
  show ?thesis
    by (simp add: helix_refatmpos_nth one_atom_geometry m half_cells_def)
qed


section \<open>The lattice reduction\<close>

lemma lattice_body_skip:
  assumes "\<not> dlt (tuple_n L inp su i j k a) (radius inp)"
  shows "lattice_body L inp su h st (i, j, k, a) = st"
  using assms by (simp add: lattice_body_def tuple_n_def Let_def)










lemma norm_axis [simp]: "vec3_norm (fin_vec (- 2) 0 0) = Fin 2" "vec3_norm (fin_vec (- 1) 0 0) = Fin 1"
proof -
  have "sqrt 4 = 2" using real_sqrt_abs[of 2] by simp
  then show "vec3_norm (fin_vec (- 2) 0 0) = Fin 2" "vec3_norm (fin_vec (- 1) 0 0) = Fin 1"
    by (simp_all add: vec3_norm_def vec3_dot_def fin_vec_def)
qed


section \<open>The dipolar and Lorentz fields\<close>


lemma dip_lor_loop_nth:
  assumes "n < N"
  shows "out_vec (fst (dip_lor_loop inp h st N)) n = BDip_at inp h st n \<and>
         out_vec (snd (dip_lor_loop inp h st N)) n = BLor_at inp h st n"
  using assms
proof (induction N)
  case 0
  then show ?case by simp
next
  case (Suc N)
  have len: "length (fst (dip_lor_loop inp h st N)) = 3 * N"
    "length (snd (dip_lor_loop inp h st N)) = 3 * N"
    using dip_lor_loop_length[of inp h st N] by simp_all
  show ?case
  proof (cases "n = N")
    case True
    then show ?thesis by (simp add: split_beta Let_def out_vec_def nth_append len)
  next
    case False
    with Suc.prems have "n < N" by simp
    with Suc.IH show ?thesis
      by (simp add: split_beta Let_def out_vec_def nth_append len)
  qed
qed

lemma FastIncommSum_dip_lor:
  "out_field_dip (FastIncommSum L inp) =
     fst (dip_lor_loop inp (helix_decomposition L inp (fis_geometry L inp))
            (lattice_reduction L inp (fis_geometry L inp)
               (helix_decomposition L inp (fis_geometry L inp))) (in_nangles inp))"
  "out_field_lor (FastIncommSum L inp) =
     snd (dip_lor_loop inp (helix_decomposition L inp (fis_geometry L inp))
            (lattice_reduction L inp (fis_geometry L inp)
               (helix_decomposition L inp (fis_geometry L inp))) (in_nangles inp))"
  by (simp_all add: FastIncommSum_def Let_def split_beta)


text \<open>The number of angles enters the function only where the fields are written.\<close>

lemma nangles_geometry [simp]: "fis_geometry L (inp\<lparr>in_nangles := N\<rparr>) = fis_geometry L inp"
  by (simp add: fis_geometry_def cell_lat_def)

lemma nangles_helix_loop:
  "helix_loop L (inp\<lparr>in_nangles := N\<rparr>) su n = helix_loop L inp su n"
  by (induction n) (simp_all add: helix_body_def fc_re_def fc_im_def)

lemma nangles_helix [simp]:
  "helix_decomposition L (inp\<lparr>in_nangles := N\<rparr>) su = helix_decomposition L inp su"
  by (simp add: helix_decomposition_def nangles_helix_loop)

lemma nangles_tuple:
  "tuple_r L (inp\<lparr>in_nangles := N\<rparr>) su i j k a = tuple_r L inp su i j k a"
  "tuple_theta L (inp\<lparr>in_nangles := N\<rparr>) su h i j k a = tuple_theta L inp su h i j k a"
  by (simp_all add: tuple_r_def tuple_atmpos_def tuple_theta_def)

lemma nangles_lattice_body:
  "lattice_body L (inp\<lparr>in_nangles := N\<rparr>) su h st t = lattice_body L inp su h st t"
  by (cases t) (simp add: lattice_body_def nangles_tuple Let_def)

lemma nangles_lattice [simp]:
  "lattice_reduction L (inp\<lparr>in_nangles := N\<rparr>) su h = lattice_reduction L inp su h"
proof -
  have "lattice_body L (inp\<lparr>in_nangles := N\<rparr>) su h = lattice_body L inp su h"
    by (intro ext) (rule nangles_lattice_body)
  then show ?thesis
    by (simp add: lattice_reduction_def replica_tuples_def accum_init_def)
qed


section \<open>The function on the probe arguments\<close>

lemma probe_simps [simp]:
  "in_natoms probe_input = 1" "in_nangles probe_input = 1" "nnn_for_cont probe_input = 1"
  "radius probe_input = Fin 2" "cont_radius probe_input = Fin 0"
  by (simp_all add: probe_input_def)

lemma helix_arrays:
  "stagmom (helix_decomposition L inp su) = map (\<lambda>a. vec3_norm (fc_re inp a)) [0..<in_natoms inp]"
  "Ahelix (helix_decomposition L inp su) =
     map (\<lambda>a. vec3_over (fc_re inp a) (vec3_norm (fc_re inp a))) [0..<in_natoms inp]"
  "Bhelix (helix_decomposition L inp su) =
     map (\<lambda>a. vec3_over (fc_im inp a) (vec3_norm (fc_im inp a))) [0..<in_natoms inp]"
  by (simp_all add: helix_decomposition_def helix_loop_stagmom helix_loop_Ahelix
      helix_loop_Bhelix vec3_muls_recip)

lemma probe_helix:
  "stagmom (helix_decomposition std_externals probe_input su) = [Fin 1]"
  "Ahelix (helix_decomposition std_externals probe_input su) = [fin_vec 1 0 0]"
  "Bhelix (helix_decomposition std_externals probe_input su) = [fin_vec 0 1 0]"
  by (simp_all add: helix_arrays)
     (simp_all add: probe_input_def fc_re_def fc_im_def seq_of_def vec3_norm_def
      vec3_dot_def vec3_over_def fin_vec_def)

lemma probe_lattice:
  "lattice_reduction std_externals probe_input (fis_geometry std_externals probe_input)
     (helix_decomposition std_externals probe_input (fis_geometry std_externals probe_input)) =
   \<lparr>CDip = [fin_vec 2 0 0], SDip = [fin_vec 0 1 0], CLor = [fin_vec 1 0 0],
    SLor = [fin_vec 0 (- 1) 0], CCont = pile_init 1, SCont = pile_init 1\<rparr>"
proof -
  let ?su = "fis_geometry std_externals probe_input"
  let ?h = "helix_decomposition std_externals probe_input ?su"
  have g: "?su = \<lparr>scx = 1, scy = 1, scz = 1, sc_lat = unit_mat, inv_sc_lat = unit_mat,
      muonpos = fin_vec 1 0 0, Kvec = fin_vec 0 0 0\<rparr>"
    unfolding probe_input_def by (rule one_atom_geometry)
  have ts: "replica_tuples ?su probe_input = [(0, 0, 0, 0)]"
    by (simp add: replica_tuples_def g)
  have r: "tuple_r std_externals probe_input ?su 0 0 0 0 = fin_vec (- 1) 0 0"
    using one_atom_tuple_r[of "[1, 0, 0, 1, 0, 0]" 1 0 0 2 0] by (simp add: probe_input_def)
  have n: "vec3_norm (fin_vec (- 1) 0 0) = Fin 1"
    by (simp add: vec3_norm_def vec3_dot_def fin_vec_def)
  have ref: "refatmpos ?h ! 0 = fin_vec 0 0 0"
    unfolding probe_input_def by (rule one_atom_refatmpos)
  have cv: "std_vmul (vec3_sub (fin_vec (- 1) 0 0) (fin_vec 0 0 0)) unit_mat = fin_vec (- 1) 0 0"
    using std_vmul_unit[of "- 1" 0 0] by (simp add: vec3_sub_def fin_vec_def)
  have at: "vec3_sub (tuple_atmpos std_externals probe_input ?su 0 0 0 0) (muonpos ?su)
              = fin_vec (- 1) 0 0"
    using r by (simp add: tuple_r_def)
  have phi: "in_phi probe_input 0 = Fin 0" by (simp add: probe_input_def seq_of_def)
  have th: "tuple_theta std_externals probe_input ?su ?h 0 0 0 0 = Fin 0"
    by (simp add: tuple_theta_def Let_def at ref phi)
       (simp add: g cv, simp add: vec3_dot_def fin_vec_def)
  show ?thesis
    by (simp add: lattice_reduction_def ts lattice_body_def Let_def r n th probe_helix
        accum_init_def)
       (simp add: vec3_add_def vec3_sub_def vec3_muls_def vec3_dot_def vec3_zero_def fin_vec_def
          dpow_Fin)
qed


lemma FastIncommSum_fields:
  assumes "n < in_nangles inp"
  shows "out_vec (out_field_dip (FastIncommSum L inp)) n =
           BDip_at inp (helix_decomposition L inp (fis_geometry L inp))
             (lattice_reduction L inp (fis_geometry L inp)
                (helix_decomposition L inp (fis_geometry L inp))) n"
    and "out_vec (out_field_lor (FastIncommSum L inp)) n =
           BLor_at inp (helix_decomposition L inp (fis_geometry L inp))
             (lattice_reduction L inp (fis_geometry L inp)
                (helix_decomposition L inp (fis_geometry L inp))) n"
  using dip_lor_loop_nth[OF assms] by (simp_all add: FastIncommSum_dip_lor)

lemma probe_fields:
  "out_vec (out_field_dip (FastIncommSum std_externals probe_input)) 0 =
     fin_vec (9274009 / 10 ^ 7 * 2) 0 0"
  "out_vec (out_field_lor (FastIncommSum std_externals probe_input)) 0 =
     fin_vec (33333333333 / 10 ^ 11 * (11654064 / 10 ^ 6) * (3 / (4 * pi * 2 ^ 3))) 0 0"
proof -
  have pos: "0 < in_nangles probe_input" by simp
  have a: "sweep_angle probe_input 0 = Fin 0" by (simp add: sweep_angle_def)
  show "out_vec (out_field_dip (FastIncommSum std_externals probe_input)) 0 =
     fin_vec (9274009 / 10 ^ 7 * 2) 0 0"
    unfolding FastIncommSum_fields(1)[OF pos] probe_lattice
    by (simp add: BDip_at_def a probe_helix)
       (simp add: vec3_add_def vec3_sub_def vec3_muls_def vec3_zero_def fin_vec_def)
  show "out_vec (out_field_lor (FastIncommSum std_externals probe_input)) 0 =
     fin_vec (33333333333 / 10 ^ 11 * (11654064 / 10 ^ 6) * (3 / (4 * pi * 2 ^ 3))) 0 0"
    unfolding FastIncommSum_fields(2)[OF pos] probe_lattice
    by (simp add: BLor_at_def a probe_helix dpow_Fin)
       (simp add: vec3_add_def vec3_sub_def vec3_muls_def vec3_zero_def fin_vec_def)
qed


lemma three_angle_probe_simps [simp]:
  "in_natoms three_angle_probe = 1" "in_nangles three_angle_probe = 3"
  "radius three_angle_probe = Fin 2" "nnn_for_cont three_angle_probe = 1"
  by (simp_all add: three_angle_probe_def)





section \<open>The contact field\<close>


lemma contact_body_left_out:
  assumes "\<not> (dge (ranks C ! i) (Fin 0) \<and> dlt (dfabs (dsub (ranks C ! i) (ranks S ! i))) (EPS L))"
  shows "contact_body L C S i acc =
           acc\<lparr>contact_out := contact_out acc @ [OddRanks (ranks C ! i) (ranks S ! i)]\<rparr>"
  using assms by (auto simp add: contact_body_def)



lemma FastIncommSum_cont:
  "out_field_cont (FastIncommSum L inp) =
     snd (cont_out_loop inp
            (contact_loop L
               (CCont (lattice_reduction L inp (fis_geometry L inp)
                         (helix_decomposition L inp (fis_geometry L inp))))
               (SCont (lattice_reduction L inp (fis_geometry L inp)
                         (helix_decomposition L inp (fis_geometry L inp))))
               (nnn_for_cont inp))
            (in_nangles inp))"
  by (simp add: FastIncommSum_def Let_def split_beta)



section \<open>The function on the contact arguments\<close>

lemma contact_simps [simp]:
  "in_natoms contact_input = 1" "in_nangles contact_input = 1" "nnn_for_cont contact_input = 1"
  "radius contact_input = Fin 2" "cont_radius contact_input = Fin 2"
  by (simp_all add: contact_input_def)




lemma three_angle_contact_simps [simp]:
  "in_natoms three_angle_contact = 1" "in_nangles three_angle_contact = 3"
  "nnn_for_cont three_angle_contact = 1"
  by (simp_all add: three_angle_contact_def)




text \<open>
  Claim C8, as amended.  In the pass of the contact loop for an index \<open>i\<close> at which the two
  ranks do not agree within \<^verbatim>\<open>EPS\<close>, the message with the two ranks is printed and nothing is
  added to \<^verbatim>\<open>CBCont\<close>, \<^verbatim>\<open>SBCont\<close>, the sum of weights or the count: the entries of that index
  are left out of the contact field.
\<close>

theorem rank_mismatch_left_out:
  assumes "\<not> dlt (dfabs (dsub (ranks C ! i) (ranks S ! i))) (EPS L)"
  shows "contact_loop L C S (Suc i) =
           (contact_loop L C S i)
             \<lparr>contact_out := contact_out (contact_loop L C S i) @
                               [OddRanks (ranks C ! i) (ranks S ! i)]\<rparr>"
  using assms by (simp add: contact_body_left_out)

theorem rank_mismatch_left_out_witness:
  "\<not> dlt (dfabs (dsub (ranks odd_CCont ! 0) (ranks odd_SCont ! 0))) (EPS std_externals) \<and>
   contact_loop std_externals odd_CCont odd_SCont (Suc 0) =
     contact_init\<lparr>contact_out := [OddRanks (Fin 1) (Fin 2)]\<rparr>"
proof -
  have m: "\<not> dlt (dfabs (dsub (ranks odd_CCont ! 0) (ranks odd_SCont ! 0))) (EPS std_externals)"
    by (simp add: odd_CCont_def odd_SCont_def)
  show ?thesis
    using rank_mismatch_left_out[OF m] m
    by (simp add: contact_init_def odd_CCont_def odd_SCont_def)
qed

text \<open>
  Claim C8, as stated, has the entries of such an index consumed.  For two piles that hold
  the ranks 1 and 2 at index 0, with a non-zero vector each, the loop prints the message
  and ends with both sums zero and the count zero, and the contact vector written is zero.
\<close>

theorem rank_mismatch_counterexample:
  "elements odd_CCont ! 0 = fin_vec 1 0 0 \<and> elements odd_SCont ! 0 = fin_vec 0 1 0 \<and>
   contact_loop std_externals odd_CCont odd_SCont (nElements odd_CCont) =
     \<lparr>CBCont = vec3_zero, SBCont = vec3_zero, SumOfWeights = Fin 0, NofM = 0,
      contact_out = [OddRanks (Fin 1) (Fin 2)]\<rparr> \<and>
   snd (cont_out_loop probe_input
          (contact_loop std_externals odd_CCont odd_SCont (nElements odd_CCont)) 1) =
     [Fin 0, Fin 0, Fin 0]"
  by (simp add: odd_CCont_def odd_SCont_def contact_body_def contact_init_def vec3_zero_def)

section \<open>Tuples outside the sphere\<close>

lemma lattice_fold_skip:
  assumes "\<forall>t \<in> set ts. lattice_body L inp su h st t = st"
  shows "foldl (lattice_body L inp su h) st ts = st"
  using assms by (induction ts) simp_all

lemma lattice_reduction_untouched:
  assumes "\<forall>i<scx su. \<forall>j<scy su. \<forall>k<scz su. \<forall>a<in_natoms inp.
             \<not> dlt (tuple_n L inp su i j k a) (radius inp)"
  shows "lattice_reduction L inp su h = accum_init inp"
  unfolding lattice_reduction_def
proof (rule lattice_fold_skip, rule ballI)
  fix t assume "t \<in> set (replica_tuples su inp)"
  then obtain i j k a where t: "t = (i, j, k, a)" and b: "i < scx su" "j < scy su" "k < scz su"
    "a < in_natoms inp"
    by (auto simp: replica_tuples_def)
  with assms have "\<not> dlt (tuple_n L inp su i j k a) (radius inp)" by simp
  then show "lattice_body L inp su h (accum_init inp) t = accum_init inp"
    unfolding t by (rule lattice_body_skip)
qed

lemma moment_loop_zero:
  assumes "\<forall>a<n. is_finite (m ! a)" and "n \<le> N"
  shows "moment_loop m (replicate N vec3_zero) (replicate N vec3_zero) (Fin t) n = vec3_zero"
  using assms
proof (induction n)
  case 0
  then show ?case by simp
next
  case (Suc n)
  then obtain v where "m ! n = Fin v" by (cases "m ! n") auto
  with Suc show ?case
    by (simp add: vec3_zero_def vec3_add_def vec3_sub_def vec3_muls_def)
qed


lemma stagmom_finite:
  assumes "is_finite (in_fc inp (6 * a))" "is_finite (in_fc inp (6 * a + 2))"
    "is_finite (in_fc inp (6 * a + 4))"
  shows "is_finite (vec3_norm (fc_re inp a))"
proof -
  obtain p q r where "in_fc inp (6 * a) = Fin p" "in_fc inp (6 * a + 2) = Fin q"
    "in_fc inp (6 * a + 4) = Fin r"
    using assms
    by (cases "in_fc inp (6 * a)"; cases "in_fc inp (6 * a + 2)"; cases "in_fc inp (6 * a + 4)")
       auto
  then show ?thesis
    by (simp add: vec3_norm_def vec3_dot_def fc_re_def not_less)
qed

lemma magnitude_within_finite: "magnitude_within b x \<Longrightarrow> is_finite x"
  by (cases x) simp_all

text \<open>
  The factor \<open>3 / (4\<pi> radius\<^sup>3)\<close> is finite when the cube of the radius does not underflow;
  the bound \<open>2\<^sup>-\<^sup>3\<^sup>4\<^sup>0\<close> keeps the cube above \<open>2\<^sup>-\<^sup>1\<^sup>0\<^sup>2\<^sup>0\<close>.
\<close>

lemma lorentz_factor_finite:
  assumes "rad \<noteq> NaN" and "\<forall>r. rad = Fin r \<longrightarrow> 1 / 2 ^ 340 \<le> \<bar>r\<bar>"
  shows "is_finite (ddiv (Fin 3) (dmul (dmul (Fin 4) (Fin pi)) (dpow rad 3)))"
proof (cases rad)
  case (Fin r)
  then have r: "1 / 2 ^ 340 \<le> \<bar>r\<bar>" using assms(2) by simp
  have "(1::real) / 2 ^ 1075 < (1 / 2 ^ 340) ^ 3" by (simp add: power_one_over)
  also have "(1 / 2 ^ 340) ^ 3 \<le> \<bar>r\<bar> ^ 3"
    using r by (intro power_mono) simp_all
  also have "\<bar>r\<bar> ^ 3 = \<bar>r ^ 3\<bar>" by (simp add: power_abs)
  finally have big: "\<not> \<bar>r ^ 3\<bar> \<le> 1 / 2 ^ 1075" by (simp only: not_le)
  then have nz: "r ^ 3 \<noteq> 0" by auto
  have p: "dpow rad 3 = pow_range (r ^ 3)" by (simp add: Fin dpow_Fin)
  have "pow_range (r ^ 3) = PInf \<or> pow_range (r ^ 3) = NInf \<or> pow_range (r ^ 3) = Fin (r ^ 3)"
    unfolding pow_range_def by (simp only: big if_False) auto
  then show ?thesis
    unfolding p using nz by auto
next
  case PInf
  then show ?thesis by (simp add: numeral_3_eq_3)
next
  case NInf
  then show ?thesis by (simp add: numeral_3_eq_3)
next
  case NaN
  with assms(1) show ?thesis by simp
qed

lemma vec3_muls_Fin_zero [simp]: "vec3_muls (Fin p) vec3_zero = vec3_zero"
  by (simp add: vec3_muls_def vec3_zero_def)

lemma vec3_muls_finite_zero:
  assumes "is_finite p"
  shows "vec3_muls p vec3_zero = vec3_zero"
  using assms by (cases p) simp_all

lemma replicate_three: "replicate (3 * n) v @ [v, v, v] = replicate (3 * Suc n) v"
proof -
  have "replicate (3 * n) v @ [v, v, v] = replicate (3 * n) v @ replicate 3 v"
    by (simp add: numeral_3_eq_3)
  also have "\<dots> = replicate (3 * n + 3) v"
    by (simp only: replicate_add)
  finally show ?thesis by simp
qed

lemma dip_lor_loop_zero:
  assumes "\<forall>n<N. BDip_at inp h st n = vec3_zero \<and> BLor_at inp h st n = vec3_zero"
  shows "dip_lor_loop inp h st N = (replicate (3 * N) (Fin 0), replicate (3 * N) (Fin 0))"
  using assms
proof (induction N)
  case 0
  then show ?case by simp
next
  case (Suc N)
  then have "dip_lor_loop inp h st N = (replicate (3 * N) (Fin 0), replicate (3 * N) (Fin 0))"
    and "BDip_at inp h st N = vec3_zero" "BLor_at inp h st N = vec3_zero"
    by simp_all
  then show ?case
    using replicate_three[of N "Fin 0"] by (simp add: vec3_zero_def)
qed

lemma cont_out_loop_none:
  assumes "NofM acc = 0"
  shows "cont_out_loop inp acc N = (vec3_zero, replicate (3 * N) (Fin 0))"
  using assms
proof (induction N)
  case 0
  then show ?case by simp
next
  case (Suc N)
  then show ?case
    using replicate_three[of N "Fin 0"] by (simp add: vec3_zero_def)
qed

lemma contact_loop_empty:
  assumes "i \<le> K"
  shows "NofM (contact_loop L (pile_init K) (pile_init K) i) = 0"
  using assms by (induction i) (simp_all add: contact_init_def contact_body_def pile_init_def)

text \<open>
  Claim C5, as amended.  If every tuple fails the cutoff test, the Lorentz radius is a
  number (not not-a-number) of magnitude at least \<open>2\<^sup>-\<^sup>3\<^sup>4\<^sup>0\<close>, so that its cube does not
  underflow, the real parts of the Fourier coefficients are finite with a magnitude of at
  most \<open>2\<^sup>5\<^sup>0\<^sup>0\<close>, so that the square of their norm does not overflow, and the number of
  angles is an \<^verbatim>\<open>unsigned int\<close>, then the dipolar, the Lorentz and the contact array are zero
  at every index.
\<close>

theorem zero_field_baseline:
  assumes "\<forall>i<scx (fis_geometry L inp). \<forall>j<scy (fis_geometry L inp).
             \<forall>k<scz (fis_geometry L inp). \<forall>a<in_natoms inp.
               \<not> dlt (tuple_n L inp (fis_geometry L inp) i j k a) (radius inp)"
    and "radius inp \<noteq> NaN" and "\<forall>r. radius inp = Fin r \<longrightarrow> 1 / 2 ^ 340 \<le> \<bar>r\<bar>"
    and "\<forall>a<in_natoms inp. magnitude_within (2 ^ 500) (in_fc inp (6 * a)) \<and>
                            magnitude_within (2 ^ 500) (in_fc inp (6 * a + 2)) \<and>
                            magnitude_within (2 ^ 500) (in_fc inp (6 * a + 4))"
    and "in_nangles inp < 2 ^ 32"
  shows "out_field_dip (FastIncommSum L inp) = replicate (3 * in_nangles inp) (Fin 0) \<and>
         out_field_lor (FastIncommSum L inp) = replicate (3 * in_nangles inp) (Fin 0) \<and>
         out_field_cont (FastIncommSum L inp) = replicate (3 * in_nangles inp) (Fin 0)"
proof -
  let ?su = "fis_geometry L inp"
  let ?h = "helix_decomposition L inp ?su"
  have st: "lattice_reduction L inp ?su ?h = accum_init inp"
    using assms(1) by (rule lattice_reduction_untouched)
  have m: "\<forall>a<in_natoms inp. is_finite (stagmom ?h ! a)"
  proof (intro allI impI)
    fix a assume a: "a < in_natoms inp"
    with assms(4) have "magnitude_within (2 ^ 500) (in_fc inp (6 * a))"
      "magnitude_within (2 ^ 500) (in_fc inp (6 * a + 2))"
      "magnitude_within (2 ^ 500) (in_fc inp (6 * a + 4))"
      by blast+
    then have "is_finite (vec3_norm (fc_re inp a))"
      by (intro stagmom_finite magnitude_within_finite)
    then show "is_finite (stagmom ?h ! a)"
      by (simp only: helix_nth(1)[OF a])
  qed
  have f: "is_finite (ddiv (Fin 3) (dmul (dmul (Fin 4) (Fin pi)) (dpow (radius inp) 3)))"
    using assms(2,3) by (rule lorentz_factor_finite)
  have z: "BDip_at inp ?h (accum_init inp) n = vec3_zero \<and>
           BLor_at inp ?h (accum_init inp) n = vec3_zero" if lt: "n < in_nangles inp" for n
  proof -
    obtain t where a: "sweep_angle inp n = Fin t"
      using sweep_angle_finite[OF lt assms(5)] by blast
    have s: "moment_loop (stagmom ?h) (replicate (in_natoms inp) vec3_zero)
               (replicate (in_natoms inp) vec3_zero) (Fin t) (in_natoms inp) = vec3_zero"
      using m by (rule moment_loop_zero) simp
    show ?thesis
      unfolding BDip_at_def BLor_at_def a
      using vec3_muls_finite_zero[OF f]
      by (simp add: accum_init_def s del: dpow.simps ddiv.simps)
  qed
  have dl: "dip_lor_loop inp ?h (accum_init inp) (in_nangles inp) =
              (replicate (3 * in_nangles inp) (Fin 0), replicate (3 * in_nangles inp) (Fin 0))"
    using z by (intro dip_lor_loop_zero) simp
  have c: "NofM (contact_loop L (pile_init (nnn_for_cont inp)) (pile_init (nnn_for_cont inp))
                   (nnn_for_cont inp)) = 0"
    by (rule contact_loop_empty) simp
  show ?thesis
    by (simp add: FastIncommSum_dip_lor FastIncommSum_cont st dl)
       (simp add: accum_init_def cont_out_loop_none[OF c])
qed


section \<open>The function with the muon outside the sphere\<close>

lemma one_atom_helix:
  "stagmom (helix_decomposition L (one_atom [1, 0, 0, 1, 0, 0] mu rad crad) su) = [Fin 1]"
  "Ahelix (helix_decomposition L (one_atom [1, 0, 0, 1, 0, 0] mu rad crad) su) = [fin_vec 1 0 0]"
  "Bhelix (helix_decomposition L (one_atom [1, 0, 0, 1, 0, 0] mu rad crad) su) = [fin_vec 0 1 0]"
  by (simp_all add: helix_arrays)
     (simp_all add: fc_re_def fc_im_def seq_of_def vec3_norm_def vec3_dot_def vec3_over_def
      fin_vec_def)

lemma one_atom_tuples:
  "replica_tuples (fis_geometry std_externals (one_atom fc [p, q, r] rad crad))
     (one_atom fc [p, q, r] rad crad) = [(0, 0, 0, 0)]"
  by (simp add: replica_tuples_def one_atom_geometry)

lemma one_atom_tuple_n:
  "tuple_n std_externals (one_atom fc [p, q, r] rad crad)
     (fis_geometry std_externals (one_atom fc [p, q, r] rad crad)) 0 0 0 0 =
   Fin (sqrt (p * p + q * q + r * r))"
  by (simp add: tuple_n_def one_atom_tuple_r)
     (simp add: vec3_norm_def vec3_dot_def fin_vec_def not_less add_nonneg_nonneg)

lemma one_atom_outside:
  assumes "\<not> dlt (Fin (sqrt (p * p + q * q + r * r))) (Fin rad)"
  shows "\<forall>i<scx (fis_geometry std_externals (one_atom fc [p, q, r] rad crad)).
         \<forall>j<scy (fis_geometry std_externals (one_atom fc [p, q, r] rad crad)).
         \<forall>k<scz (fis_geometry std_externals (one_atom fc [p, q, r] rad crad)).
         \<forall>a<in_natoms (one_atom fc [p, q, r] rad crad).
           \<not> dlt (tuple_n std_externals (one_atom fc [p, q, r] rad crad)
                    (fis_geometry std_externals (one_atom fc [p, q, r] rad crad)) i j k a)
                 (radius (one_atom fc [p, q, r] rad crad))"
  using assms one_atom_tuple_n[of fc p q r rad crad] by (simp add: one_atom_geometry)

lemma zero_radius_simps [simp]:
  "in_natoms zero_radius_input = 1" "in_nangles zero_radius_input = 1"
  "nnn_for_cont zero_radius_input = 1" "radius zero_radius_input = Fin 0"
  by (simp_all add: zero_radius_input_def)

theorem zero_field_baseline_witness:
  "tuple_n std_externals far_input (fis_geometry std_externals far_input) 0 0 0 0 = Fin 1 \<and>
   replica_tuples (fis_geometry std_externals far_input) far_input = [(0, 0, 0, 0)] \<and>
   radius far_input = Fin (1 / 2) \<and> in_nangles far_input = 1 \<and>
   magnitude_within (2 ^ 500) (in_fc far_input 0) \<and>
   magnitude_within (2 ^ 500) (in_fc far_input 2) \<and>
   magnitude_within (2 ^ 500) (in_fc far_input 4) \<and>
   out_field_dip (FastIncommSum std_externals far_input) = [Fin 0, Fin 0, Fin 0] \<and>
   out_field_lor (FastIncommSum std_externals far_input) = [Fin 0, Fin 0, Fin 0] \<and>
   out_field_cont (FastIncommSum std_externals far_input) = [Fin 0, Fin 0, Fin 0]"
proof -
  have out: "\<forall>i<scx (fis_geometry std_externals far_input).
         \<forall>j<scy (fis_geometry std_externals far_input).
         \<forall>k<scz (fis_geometry std_externals far_input).
         \<forall>a<in_natoms far_input.
           \<not> dlt (tuple_n std_externals far_input (fis_geometry std_externals far_input) i j k a)
                 (radius far_input)"
    unfolding far_input_def by (rule one_atom_outside) simp
  have rad: "radius far_input \<noteq> NaN" "\<forall>r. radius far_input = Fin r \<longrightarrow> 1 / 2 ^ 340 \<le> \<bar>r\<bar>"
    by (simp_all add: far_input_def)
  have fc: "\<forall>a<in_natoms far_input. magnitude_within (2 ^ 500) (in_fc far_input (6 * a)) \<and>
              magnitude_within (2 ^ 500) (in_fc far_input (6 * a + 2)) \<and>
              magnitude_within (2 ^ 500) (in_fc far_input (6 * a + 4))"
    by (simp add: far_input_def seq_of_def)
  have na: "in_nangles far_input < 2 ^ 32" by (simp add: far_input_def)
  have n: "tuple_n std_externals far_input (fis_geometry std_externals far_input) 0 0 0 0 = Fin 1"
    unfolding far_input_def by (simp add: one_atom_tuple_n)
  have ts: "replica_tuples (fis_geometry std_externals far_input) far_input = [(0, 0, 0, 0)]"
    unfolding far_input_def by (rule one_atom_tuples)
  show ?thesis
    using zero_field_baseline[OF out rad fc na] n ts
    by (simp add: far_input_def numeral_3_eq_3 seq_of_def)
qed

text \<open>
  Claim C5, as stated, fails for a small positive Lorentz radius: with the radius
  \<open>2\<^sup>-\<^sup>4\<^sup>0\<^sup>0\<close> the one tuple of the arguments has the distance 1 and fails the cutoff test, the
  cube of the radius underflows to zero, and the Lorentz array holds not-a-number, the
  product of the infinite factor \<open>3 / (4\<pi> \<cdot> 0)\<close> and zero.
\<close>

theorem tiny_radius_counterexample:
  "tuple_n std_externals tiny_radius_input (fis_geometry std_externals tiny_radius_input)
     0 0 0 0 = Fin 1 \<and>
   replica_tuples (fis_geometry std_externals tiny_radius_input) tiny_radius_input =
     [(0, 0, 0, 0)] \<and>
   radius tiny_radius_input = Fin (1 / 2 ^ 400) \<and> \<not> dlt (Fin 1) (Fin (1 / 2 ^ 400)) \<and>
   dlt (Fin 0) (radius tiny_radius_input) \<and>
   out_field_lor (FastIncommSum std_externals tiny_radius_input) = [NaN, NaN, NaN]"
proof -
  let ?su = "fis_geometry std_externals tiny_radius_input"
  let ?h = "helix_decomposition std_externals tiny_radius_input ?su"
  have n: "tuple_n std_externals tiny_radius_input ?su 0 0 0 0 = Fin 1"
    unfolding tiny_radius_input_def by (simp add: one_atom_tuple_n)
  have ts: "replica_tuples ?su tiny_radius_input = [(0, 0, 0, 0)]"
    unfolding tiny_radius_input_def by (rule one_atom_tuples)
  have st: "lattice_reduction std_externals tiny_radius_input ?su ?h =
              accum_init tiny_radius_input"
    unfolding tiny_radius_input_def
    by (rule lattice_reduction_untouched, rule one_atom_outside) simp
  have h: "stagmom ?h = [Fin 1]"
    unfolding tiny_radius_input_def by (rule one_atom_helix)
  have i: "in_natoms tiny_radius_input = 1" "in_nangles tiny_radius_input = 1"
    "radius tiny_radius_input = Fin (1 / 2 ^ 400)"
    by (simp_all add: tiny_radius_input_def)
  have p: "dpow (radius tiny_radius_input) 3 = Fin 0"
    unfolding i(3) dpow_Fin pow_range_def by (simp add: power_one_over)
  have a: "sweep_angle tiny_radius_input 0 = Fin 0"
    by (simp add: sweep_angle_def i(2))
  have lor: "out_field_lor (FastIncommSum std_externals tiny_radius_input) = [NaN, NaN, NaN]"
    by (simp add: FastIncommSum_dip_lor st split_beta Let_def BLor_at_def h accum_init_def
          i(1,2) a p del: dpow.simps)
       (simp add: vec3_add_def vec3_sub_def vec3_muls_def vec3_zero_def)
  show ?thesis
    using n ts lor by (simp add: i)
qed

section \<open>Degenerate geometry\<close>

lemma dadd_Fin_cases:
  assumes "dadd p q = Fin s"
  obtains p' q' where "p = Fin p'" "q = Fin q'" "s = p' + q'"
  using assms by (cases p; cases q) auto

lemma dmul_self_Fin:
  assumes "dmul p p = Fin s"
  obtains p' where "p = Fin p'" "s = p' * p'"
  using assms by (cases p) auto

lemma vec3_norm_Fin_zero:
  assumes "vec3_norm v = Fin 0"
  shows "v = vec3_zero"
proof -
  obtain s where s: "vec3_dot v v = Fin s" and s0: "sqrt s = 0"
    using assms unfolding vec3_norm_def by (cases "vec3_dot v v") (auto split: if_splits)
  then have s': "s = 0" by simp
  from s obtain a b where ab: "dadd (dmul (vx v) (vx v)) (dmul (vy v) (vy v)) = Fin a"
    "dmul (vz v) (vz v) = Fin b" "s = a + b"
    unfolding vec3_dot_def by (rule dadd_Fin_cases)
  from ab(1) obtain c d where cd: "dmul (vx v) (vx v) = Fin c" "dmul (vy v) (vy v) = Fin d"
    "a = c + d"
    by (rule dadd_Fin_cases)
  from cd(1) obtain p where p: "vx v = Fin p" "c = p * p" by (rule dmul_self_Fin)
  from cd(2) obtain q where q: "vy v = Fin q" "d = q * q" by (rule dmul_self_Fin)
  from ab(2) obtain r where r: "vz v = Fin r" "b = r * r" by (rule dmul_self_Fin)
  have "p * p + q * q + r * r = 0"
    using s' ab(3) cd(3) p(2) q(2) r(2) by simp
  then have "p = 0 \<and> q = 0 \<and> r = 0"
    by (metis add_nonneg_eq_0_iff add_nonneg_nonneg mult_eq_0_iff zero_le_square)
  then show ?thesis
    using p(1) q(1) r(1) by (cases v) (simp add: vec3_zero_def)
qed

lemma vec3_muls_PInf_zero [simp]: "vec3_muls PInf vec3_zero = nan_vec"
  by (simp add: vec3_muls_def vec3_zero_def nan_vec_def)

lemma lattice_body_coincident:
  assumes n: "tuple_n L inp su i j k a = Fin 0" and cut: "dlt (Fin 0) (radius inp)"
    and len: "a < length (CDip st)" "a < length (SDip st)"
  shows "CDip (lattice_body L inp su h st (i, j, k, a)) ! a = nan_vec"
    and "SDip (lattice_body L inp su h st (i, j, k, a)) ! a = nan_vec"
proof -
  have n': "vec3_norm (tuple_r L inp su i j k a) = Fin 0"
    using n by (simp add: tuple_n_def)
  then have r: "tuple_r L inp su i j k a = vec3_zero"
    by (rule vec3_norm_Fin_zero)
  show "CDip (lattice_body L inp su h st (i, j, k, a)) ! a = nan_vec"
    using cut len by (simp add: lattice_body_def Let_def r)
  show "SDip (lattice_body L inp su h st (i, j, k, a)) ! a = nan_vec"
    using cut len by (simp add: lattice_body_def Let_def r)
qed

lemma lattice_body_nonpositive_radius:
  assumes "radius inp = Fin r" "r \<le> 0"
  shows "lattice_body L inp su h st (i, j, k, a) = st"
  using vec3_norm_not_below[OF assms] by (simp add: lattice_body_skip tuple_n_def)

lemma contact_loop_out:
  "\<forall>m \<in> set (contact_out (contact_loop L C S i)). \<exists>p q. m = OddRanks p q"
  by (induction i) (auto simp: contact_init_def contact_body_def)


text \<open>
  Claim C7, as amended.  The function has no guard against degenerate geometry and no way
  to signal an error.  A tuple at distance zero inside a positive Lorentz radius passes the
  cutoff test, the divisions by the distance are carried out, and the dipolar accumulators
  of the atom become not-a-number; with a Lorentz radius that is zero or negative every
  tuple fails the cutoff test and changes nothing.  Either way the function runs to its
  end: the three output arrays are written in full, and everything printed comes from the
  helix decomposition or is the message of the contact loop about two ranks.
\<close>

theorem degenerate_geometry_unguarded:
  assumes "a < in_natoms inp" and "accum_sized (in_natoms inp) st"
  shows "(tuple_n L inp su i j k a = Fin 0 \<and> dlt (Fin 0) (radius inp) \<longrightarrow>
            CDip (lattice_body L inp su h st (i, j, k, a)) ! a = nan_vec \<and>
            SDip (lattice_body L inp su h st (i, j, k, a)) ! a = nan_vec) \<and>
         (\<forall>r. radius inp = Fin r \<and> r \<le> 0 \<longrightarrow> lattice_body L inp su h st (i, j, k, a) = st) \<and>
         length (out_field_cont (FastIncommSum L inp)) = 3 * in_nangles inp \<and>
         length (out_field_dip (FastIncommSum L inp)) = 3 * in_nangles inp \<and>
         length (out_field_lor (FastIncommSum L inp)) = 3 * in_nangles inp \<and>
         (\<forall>m \<in> set (printed (FastIncommSum L inp)).
            m \<in> set (helix_out (helix_decomposition L inp (fis_geometry L inp))) \<or>
            (\<exists>p q. m = OddRanks p q))"
proof -
  have len: "a < length (CDip st)" "a < length (SDip st)"
    using assms by (simp_all add: accum_sized_def)
  show ?thesis
    using lattice_body_coincident[OF _ _ len, of L inp su i j k h]
      lattice_body_nonpositive_radius[of inp _ L su h st i j k a]
      contact_loop_out
    by (auto simp: FastIncommSum_lengths FastIncommSum_printed)
qed

section \<open>The function with the muon on the atom\<close>

lemma coincident_simps [simp]:
  "in_natoms coincident_input = 1" "in_nangles coincident_input = 1"
  "nnn_for_cont coincident_input = 1" "radius coincident_input = Fin 2"
  "cont_radius coincident_input = Fin 2"
  by (simp_all add: coincident_input_def)

lemma coincident_tuple_n:
  "tuple_n std_externals coincident_input (fis_geometry std_externals coincident_input) 0 0 0 0 =
     Fin 0"
  unfolding coincident_input_def by (simp add: one_atom_tuple_n)

lemma pile_add_first_zero:
  "pile_add_element (pile_init (Suc 0)) (Fin 0) v =
     \<lparr>nElements = Suc 0, ranks = [Fin 0], elements = [v]\<rparr>"
  by (simp add: pile_add_element_def pile_init_def pile_slot_def Let_def)

lemma coincident_lattice:
  "lattice_reduction std_externals coincident_input (fis_geometry std_externals coincident_input)
     (helix_decomposition std_externals coincident_input
        (fis_geometry std_externals coincident_input)) =
   \<lparr>CDip = [nan_vec], SDip = [nan_vec], CLor = [fin_vec 1 0 0], SLor = [fin_vec 0 (- 1) 0],
    CCont = \<lparr>nElements = 1, ranks = [Fin 0], elements = [fin_vec 1 0 0]\<rparr>,
    SCont = \<lparr>nElements = 1, ranks = [Fin 0], elements = [fin_vec 0 (- 1) 0]\<rparr>\<rparr>"
proof -
  let ?su = "fis_geometry std_externals coincident_input"
  let ?h = "helix_decomposition std_externals coincident_input ?su"
  have g: "?su = \<lparr>scx = 1, scy = 1, scz = 1, sc_lat = unit_mat, inv_sc_lat = unit_mat,
      muonpos = fin_vec 0 0 0, Kvec = fin_vec 0 0 0\<rparr>"
    unfolding coincident_input_def by (rule one_atom_geometry)
  have ts: "replica_tuples ?su coincident_input = [(0, 0, 0, 0)]"
    unfolding coincident_input_def by (rule one_atom_tuples)
  have r: "tuple_r std_externals coincident_input ?su 0 0 0 0 = vec3_zero"
    using coincident_tuple_n by (simp add: tuple_n_def vec3_norm_Fin_zero)
  have ref: "refatmpos ?h ! 0 = fin_vec 0 0 0"
    unfolding coincident_input_def by (rule one_atom_refatmpos)
  have cv: "std_vmul (vec3_sub vec3_zero (fin_vec 0 0 0)) unit_mat = fin_vec 0 0 0"
    using std_vmul_unit[of 0 0 0] by (simp add: vec3_sub_def fin_vec_def vec3_zero_def)
  have at: "vec3_sub (tuple_atmpos std_externals coincident_input ?su 0 0 0 0) (muonpos ?su)
              = vec3_zero"
    using r by (simp add: tuple_r_def)
  have phi: "in_phi coincident_input 0 = Fin 0" by (simp add: coincident_input_def seq_of_def)
  have th: "tuple_theta std_externals coincident_input ?su ?h 0 0 0 0 = Fin 0"
    by (simp add: tuple_theta_def Let_def at ref phi)
       (simp add: g cv, simp add: vec3_dot_def fin_vec_def)
  have hx: "stagmom ?h = [Fin 1]" "Ahelix ?h = [fin_vec 1 0 0]" "Bhelix ?h = [fin_vec 0 1 0]"
    unfolding coincident_input_def by (rule one_atom_helix)+
  have p3: "dpow (Fin 0) 3 = Fin 0" by (simp add: dpow_Fin)
  show ?thesis
    by (simp add: lattice_reduction_def ts lattice_body_def Let_def r th hx
        accum_init_def p3 pile_add_first_zero del: dpow.simps)
       (simp add: vec3_add_def vec3_sub_def vec3_muls_def vec3_dot_def vec3_zero_def fin_vec_def)
qed


lemma one_atom_helix_out:
  "helix_out (helix_decomposition std_externals (one_atom [1, 0, 0, 1, 0, 0] mu rad crad) su) = []"
  by (simp add: helix_out_eq helix_msgs_def Let_def dgt_def)
     (simp add: fc_re_def fc_im_def seq_of_def vec3_norm_def vec3_dot_def vec3_muls_def)

theorem degenerate_geometry_unguarded_witness:
  "0 < in_natoms coincident_input \<and>
   accum_sized (in_natoms coincident_input) (accum_init coincident_input) \<and>
   tuple_n std_externals coincident_input (fis_geometry std_externals coincident_input)
     0 0 0 0 = Fin 0 \<and>
   dlt (Fin 0) (radius coincident_input) \<and>
   CDip (lattice_body std_externals coincident_input
           (fis_geometry std_externals coincident_input)
           (helix_decomposition std_externals coincident_input
              (fis_geometry std_externals coincident_input))
           (accum_init coincident_input) (0, 0, 0, 0)) ! 0 = nan_vec \<and>
   SDip (lattice_body std_externals coincident_input
           (fis_geometry std_externals coincident_input)
           (helix_decomposition std_externals coincident_input
              (fis_geometry std_externals coincident_input))
           (accum_init coincident_input) (0, 0, 0, 0)) ! 0 = nan_vec \<and>
   radius zero_radius_input = Fin 0 \<and>
   lattice_body std_externals zero_radius_input
     (fis_geometry std_externals zero_radius_input)
     (helix_decomposition std_externals zero_radius_input
        (fis_geometry std_externals zero_radius_input))
     (accum_init zero_radius_input) (0, 0, 0, 0) = accum_init zero_radius_input \<and>
   length (out_field_dip (FastIncommSum std_externals coincident_input)) = 3"
proof -
  have pos: "0 < in_natoms coincident_input" "0 < in_natoms zero_radius_input"
    by simp_all
  have sz: "accum_sized (in_natoms coincident_input) (accum_init coincident_input)"
    "accum_sized (in_natoms zero_radius_input) (accum_init zero_radius_input)"
    by (simp_all add: accum_sized_def accum_init_def)
  note c = degenerate_geometry_unguarded[OF pos(1) sz(1), of std_externals
      "fis_geometry std_externals coincident_input" 0 0 0
      "helix_decomposition std_externals coincident_input
         (fis_geometry std_externals coincident_input)"]
  note z = degenerate_geometry_unguarded[OF pos(2) sz(2), of std_externals
      "fis_geometry std_externals zero_radius_input" 0 0 0
      "helix_decomposition std_externals zero_radius_input
         (fis_geometry std_externals zero_radius_input)"]
  show ?thesis
    using c z coincident_tuple_n sz(1) by simp
qed

text \<open>
  Claim C7, as stated, fails with the muon on the atom: the distance of the one tuple is
  zero, the function prints nothing, and it writes a dipolar and a contact array that hold
  not-a-number.
\<close>

theorem coincident_counterexample:
  "tuple_n std_externals coincident_input (fis_geometry std_externals coincident_input)
     0 0 0 0 = Fin 0 \<and>
   radius coincident_input = Fin 2 \<and>
   printed (FastIncommSum std_externals coincident_input) = [] \<and>
   out_field_dip (FastIncommSum std_externals coincident_input) = [NaN, NaN, NaN] \<and>
   out_field_cont (FastIncommSum std_externals coincident_input) = [NaN, NaN, NaN]"
proof -
  let ?su = "fis_geometry std_externals coincident_input"
  let ?h = "helix_decomposition std_externals coincident_input ?su"
  have hx: "stagmom ?h = [Fin 1]" "helix_out ?h = []"
    unfolding coincident_input_def by (rule one_atom_helix one_atom_helix_out)+
  have acc: "contact_loop std_externals
               \<lparr>nElements = Suc 0, ranks = [Fin 0], elements = [fin_vec 1 0 0]\<rparr>
               \<lparr>nElements = Suc 0, ranks = [Fin 0], elements = [fin_vec 0 (- 1) 0]\<rparr> (Suc 0) =
             \<lparr>CBCont = \<lparr>vx = PInf, vy = NaN, vz = NaN\<rparr>,
              SBCont = \<lparr>vx = NaN, vy = NInf, vz = NaN\<rparr>,
              SumOfWeights = PInf, NofM = 1, contact_out = []\<rparr>"
    by (simp add: contact_body_def contact_init_def)
       (simp add: vec3_add_def vec3_muls_def vec3_zero_def fin_vec_def)
  have pr: "printed (FastIncommSum std_externals coincident_input) = []"
    by (simp add: FastIncommSum_printed coincident_lattice hx acc
        del: contact_loop.simps)
  have dip: "out_field_dip (FastIncommSum std_externals coincident_input) = [NaN, NaN, NaN]"
    by (simp add: FastIncommSum_dip_lor coincident_lattice split_beta Let_def BDip_at_def hx
          sweep_angle_def vec3_add_def vec3_sub_def vec3_muls_def vec3_zero_def nan_vec_def)
  have cont: "out_field_cont (FastIncommSum std_externals coincident_input) = [NaN, NaN, NaN]"
    by (simp add: FastIncommSum_cont coincident_lattice acc del: contact_loop.simps)
       (simp add: split_beta Let_def sweep_angle_def vec3_sub_def vec3_muls_def)
  show ?thesis
    using coincident_tuple_n pr dip cont by simp
qed

section \<open>The pile\<close>

lemma mset_pile_ins: "mset (pile_ins e ys) = add_mset e (mset ys)"
  by (induction ys) simp_all

lemma set_pile_ins: "set (pile_ins e ys) = insert e (set ys)"
  by (induction ys) auto

lemma length_pile_ins: "length (pile_ins e ys) = Suc (length ys)"
  by (induction ys) simp_all

lemma sorted_pile_ins:
  assumes "sorted (map fst ys)"
  shows "sorted (map fst (pile_ins e ys))"
  using assms by (induction ys) (auto simp: set_pile_ins)

lemma filter_pile_ins:
  assumes "sorted (map fst ys)"
  shows "filter (\<lambda>x. k = fst x) (pile_ins e ys) =
           filter (\<lambda>x. k = fst x) ys @ (if k = fst e then [e] else [])"
  using assms
proof (induction ys)
  case Nil
  then show ?case by simp
next
  case (Cons y ys)
  have IH: "filter (\<lambda>x. k = fst x) (pile_ins e ys) =
              filter (\<lambda>x. k = fst x) ys @ (if k = fst e then [e] else [])"
    using Cons by simp
  show ?case
  proof (cases "fst y \<le> fst e")
    case True
    with IH show ?thesis by auto
  next
    case False
    then have "\<forall>x \<in> set (y # ys). fst e < fst x"
      using Cons.prems by auto
    then have "k = fst e \<Longrightarrow> filter (\<lambda>x. k = fst x) (y # ys) = []"
      by (auto simp: filter_empty_conv)
    with False show ?thesis by auto
  qed
qed

lemma take_pile_ins: "take K (pile_ins e (take K ys)) = take K (pile_ins e ys)"
proof (induction ys arbitrary: K)
  case Nil
  then show ?case by simp
next
  case (Cons y ys)
  show ?case
  proof (cases K)
    case 0
    then show ?thesis by simp
  next
    case (Suc K')
    with Cons[of K'] show ?thesis
      by (cases K') simp_all
  qed
qed

text \<open>Insertion one by one, each entry behind its equals, is the stable sort.\<close>

lemma foldl_pile_ins:
  "foldl (\<lambda>ys e. pile_ins e ys) [] xs = sort_key fst xs"
proof -
  let ?F = "\<lambda>xs. foldl (\<lambda>ys e. pile_ins e ys) [] xs"
  have m: "mset (?F xs) = mset xs" for xs
    by (induction xs rule: rev_induct) (simp_all add: mset_pile_ins)
  have s: "sorted (map fst (?F xs))" for xs
    by (induction xs rule: rev_induct) (simp_all add: sorted_pile_ins)
  have f: "filter (\<lambda>x. k = fst x) (?F xs) = filter (\<lambda>x. k = fst x) xs" for k xs
    by (induction xs rule: rev_induct) (simp_all add: filter_pile_ins s)
  show ?thesis
    by (rule properties_for_sort_key[symmetric]) (simp_all add: m s f)
qed


lemma pile_slot_entries:
  assumes "\<forall>x \<in> set es. 0 \<le> fst x" and "0 \<le> r"
  shows "pile_slot (map (\<lambda>e. Fin (fst e)) es @ replicate m (Fin (- 1))) (Fin r) =
           length (takeWhile (\<lambda>x. fst x \<le> r) es)"
  using assms(1)
proof (induction es)
  case Nil
  then show ?case by (cases m) (simp_all add: pile_slot_def)
next
  case (Cons y ys)
  then have "pile_slot (map (\<lambda>e. Fin (fst e)) ys @ replicate m (Fin (- 1))) (Fin r) =
               length (takeWhile (\<lambda>x. fst x \<le> r) ys)"
    by simp
  with Cons.prems show ?case
    by (auto simp: pile_slot_def not_less)
qed

lemma pile_ins_split:
  "pile_ins (r, v) es =
     take (length (takeWhile (\<lambda>x. fst x \<le> r) es)) es @
     (r, v) # drop (length (takeWhile (\<lambda>x. fst x \<le> r) es)) es"
  by (induction es) simp_all

lemma take_padded:
  assumes "length I + m = Suc K"
  shows "take K (map f I @ replicate m s) =
           map f (take K I) @ replicate (K - length (take K I)) s"
  using assms by (auto simp: take_map min_def)

lemma pile_add_of:
  assumes nonneg: "\<forall>x \<in> set es. 0 \<le> fst x" and r: "0 \<le> r" and len: "length es \<le> K"
  shows "pile_add_element (pile_of K es) (Fin r) v = pile_of K (take K (pile_ins (r, v) es))"
proof -
  let ?p = "length (takeWhile (\<lambda>x. fst x \<le> r) es)"
  let ?f = "\<lambda>e. Fin (fst e)"
  have slot: "pile_slot (ranks (pile_of K es)) (Fin r) = ?p"
    using nonneg r by (simp add: pile_of_def pile_slot_entries)
  have p: "?p \<le> length es" by (rule length_takeWhile_le)
  show ?thesis
  proof (cases "?p < K")
    case True
    have m: "length (pile_ins (r, v) es) + (K - length es) = Suc K"
      using len by (simp add: length_pile_ins)
    have rk: "take ?p (map ?f es @ replicate (K - length es) (Fin (- 1))) @
              Fin r # drop ?p (map ?f es @ replicate (K - length es) (Fin (- 1))) =
              map ?f (pile_ins (r, v) es) @ replicate (K - length es) (Fin (- 1))"
      using p arg_cong[OF pile_ins_split[of r v es], of "map ?f"]
      by (simp add: take_map drop_map)
    have el: "take ?p (map snd es @ replicate (K - length es) vec3_zero) @
              v # drop ?p (map snd es @ replicate (K - length es) vec3_zero) =
              map snd (pile_ins (r, v) es) @ replicate (K - length es) vec3_zero"
      using p arg_cong[OF pile_ins_split[of r v es], of "map snd"]
      by (simp add: take_map drop_map)
    have R: "ranks (pile_of K es) = map ?f es @ replicate (K - length es) (Fin (- 1))"
      "elements (pile_of K es) = map snd es @ replicate (K - length es) vec3_zero"
      "nElements (pile_of K es) = K"
      by (simp_all add: pile_of_def)
    have upd: "(pile_of K es)\<lparr>ranks := X, elements := Y\<rparr> =
                 \<lparr>nElements = K, ranks = X, elements = Y\<rparr>" for X Y
      by (simp add: pile_of_def)
    have "pile_add_element (pile_of K es) (Fin r) v =
            (pile_of K es)
              \<lparr>ranks := take K (take ?p (ranks (pile_of K es)) @
                                 Fin r # drop ?p (ranks (pile_of K es))),
               elements := take K (take ?p (elements (pile_of K es)) @
                                    v # drop ?p (elements (pile_of K es)))\<rparr>"
      unfolding pile_add_element_def Let_def slot R(3) using True by (simp only: if_True)
    also have "\<dots> = \<lparr>nElements = K,
                       ranks = take K (map ?f (pile_ins (r, v) es) @
                                       replicate (K - length es) (Fin (- 1))),
                       elements = take K (map snd (pile_ins (r, v) es) @
                                          replicate (K - length es) vec3_zero)\<rparr>"
      unfolding R(1,2) rk el by (rule upd)
    also have "\<dots> = pile_of K (take K (pile_ins (r, v) es))"
      unfolding take_padded[OF m] pile_of_def ..
    finally show ?thesis .
  next
    case False
    with p len have eq: "?p = length es" "length es = K" by simp_all
    have "take K (pile_ins (r, v) es) = es"
      using arg_cong[OF pile_ins_split[of r v es], of "take K"] by (simp add: eq)
    with False show ?thesis
      by (simp add: pile_add_element_def slot Let_def) (simp add: pile_of_def)
  qed
qed


lemma pile_fill_entries:
  assumes "\<forall>e \<in> set xs. 0 \<le> fst e"
  shows "pile_fill K xs = pile_of K (take K (sort_key fst xs))"
  using assms
proof (induction xs rule: rev_induct)
  case Nil
  show ?case by (simp add: pile_fill_def pile_init_def pile_of_def)
next
  case (snoc e xs)
  let ?S = "sort_key fst xs"
  have IH: "pile_fill K xs = pile_of K (take K ?S)"
    using snoc by simp
  have "set (take K ?S) \<subseteq> set xs"
    using set_take_subset[of K ?S] by simp
  then have nonneg: "\<forall>x \<in> set (take K ?S). 0 \<le> fst x"
    using snoc.prems by auto
  have e: "0 \<le> fst e"
    using snoc.prems by simp
  have "pile_fill K (xs @ [e]) = pile_add_element (pile_fill K xs) (Fin (fst e)) (snd e)"
    by (simp add: pile_fill_def)
  also have "\<dots> = pile_of K (take K (pile_ins (fst e, snd e) (take K ?S)))"
    unfolding IH by (rule pile_add_of[OF nonneg e]) simp
  also have "\<dots> = pile_of K (take K (pile_ins e ?S))"
    by (simp add: take_pile_ins)
  also have "pile_ins e ?S = sort_key fst (xs @ [e])"
    unfolding foldl_pile_ins[symmetric] by simp
  finally show ?case .
qed

lemma map_sort_key: "map f (sort_key f xs) = sort (map f xs)"
  by (rule properties_for_sort[symmetric]) simp_all

lemma sort_ranks_perm:
  assumes "mset ys = mset xs"
  shows "map fst (sort_key fst ys) = map fst (sort_key fst xs)"
proof -
  have "mset (map fst ys) = mset (map fst xs)"
    using assms by (metis mset_map)
  then have "sort (map fst ys) = sort (map fst xs)"
    by (metis sorted_list_of_multiset_mset)
  then show ?thesis by (simp add: map_sort_key)
qed

lemma pile_of_ranks_perm:
  assumes "map fst es = map fst es'"
  shows "ranks (pile_of K (take K es)) = ranks (pile_of K (take K es'))"
proof -
  have "map (\<lambda>e. Fin (fst e)) es = map (\<lambda>e. Fin (fst e)) es'"
    using arg_cong[OF assms, of "map Fin"] by (simp add: comp_def)
  moreover have "length es = length es'"
    using arg_cong[OF assms, of length] by simp
  ultimately show ?thesis
    by (simp add: pile_of_def take_map[symmetric])
qed

text \<open>
  Claim C4, on the pile modelled from the spec.  After any sequence of insertions of
  entries with finite, non-negative ranks into a pile of capacity \<open>K\<close>, the pile holds in
  its first positions the first \<open>K\<close> entries (all of them, if they are fewer) of the
  sequence sorted by rank with equal ranks in the order of their insertion: these are
  \<open>min K n\<close> entries in ascending order of rank.  Every later position, and so every
  position from the number of insertions on, holds the negative sentinel.  For a
  permutation of the sequence the ranks in the pile are the same, and when no two ranks are
  equal the whole pile is the same.
\<close>

theorem pile_retains_smallest:
  assumes "\<forall>e \<in> set xs. 0 \<le> fst e"
  shows "let p = pile_fill K xs; kept = take K (sort_key fst xs)
         in length (ranks p) = K \<and> length (elements p) = K \<and>
            length kept = min K (length xs) \<and>
            ranks p = map (\<lambda>e. Fin (fst e)) kept @ replicate (K - length kept) (Fin (- 1)) \<and>
            elements p = map snd kept @ replicate (K - length kept) vec3_zero \<and>
            sorted (map fst kept) \<and>
            (\<forall>i. length kept \<le> i \<and> i < K \<longrightarrow> ranks p ! i = Fin (- 1) \<and> dlt (ranks p ! i) (Fin 0)) \<and>
            (\<forall>ys. mset ys = mset xs \<longrightarrow> ranks (pile_fill K ys) = ranks p) \<and>
            (distinct (map fst xs) \<longrightarrow> (\<forall>ys. mset ys = mset xs \<longrightarrow> pile_fill K ys = p))"
proof -
  let ?kept = "take K (sort_key fst xs)"
  let ?p = "pile_fill K xs"
  have p: "?p = pile_of K ?kept"
    using assms by (rule pile_fill_entries)
  have l1: "length (ranks ?p) = K" and l2: "length (elements ?p) = K"
    unfolding p by (simp_all add: pile_of_def)
  have len: "length ?kept = min K (length xs)"
    by (simp add: min.commute)
  have rk: "ranks ?p = map (\<lambda>e. Fin (fst e)) ?kept @ replicate (K - length ?kept) (Fin (- 1))"
    and el: "elements ?p = map snd ?kept @ replicate (K - length ?kept) vec3_zero"
    unfolding p pile_of_def by simp_all
  have srt: "sorted (map fst ?kept)"
    using sorted_wrt_take[OF sorted_sort_key[of fst xs], of K] by (simp add: take_map)
  have sent: "ranks ?p ! i = Fin (- 1) \<and> dlt (ranks ?p ! i) (Fin 0)"
    if "length ?kept \<le> i \<and> i < K" for i
  proof -
    have "ranks ?p ! i = Fin (- 1)"
      unfolding p using that by (auto simp: pile_of_def nth_append min_def split: if_splits)
    then show ?thesis by simp
  qed
  have perm: "ranks (pile_fill K ys) = ranks ?p" if "mset ys = mset xs" for ys
  proof -
    have "\<forall>e \<in> set ys. 0 \<le> fst e"
      using assms that by (metis set_mset_mset)
    then have "pile_fill K ys = pile_of K (take K (sort_key fst ys))"
      by (rule pile_fill_entries)
    then show ?thesis
      unfolding p using pile_of_ranks_perm[OF sort_ranks_perm[OF that]] by simp
  qed
  have whole: "pile_fill K ys = ?p" if "distinct (map fst xs)" "mset ys = mset xs" for ys
  proof -
    have "\<forall>e \<in> set ys. 0 \<le> fst e"
      using assms that(2) by (metis set_mset_mset)
    then have "pile_fill K ys = pile_of K (take K (sort_key fst ys))"
      by (rule pile_fill_entries)
    moreover have "inj_on fst (set xs)"
      using that(1) by (simp add: distinct_map)
    then have "sort_key fst xs = sort_key fst ys"
      using that(2) by (intro sort_key_eq_sort_key) simp_all
    ultimately show ?thesis unfolding p by simp
  qed
  show ?thesis
    unfolding Let_def using l1 l2 len rk el srt sent perm whole by blast
qed


theorem pile_retains_smallest_witness:
  "ranks (pile_fill 2 four_candidates) = [Fin 1, Fin 1] \<and>
   elements (pile_fill 2 four_candidates) = [fin_vec 1 0 0, fin_vec 1 1 0] \<and>
   ranks (pile_fill 5 four_candidates) = [Fin 1, Fin 1, Fin 2, Fin 3, Fin (- 1)] \<and>
   ranks (pile_fill 2 (rev four_candidates)) = [Fin 1, Fin 1]"
proof -
  have nonneg: "\<forall>e \<in> set four_candidates. 0 \<le> fst e"
    by (simp add: four_candidates_def)
  have s: "sort_key fst four_candidates =
             [(1, fin_vec 1 0 0), (1, fin_vec 1 1 0), (2, fin_vec 2 0 0), (3, fin_vec 3 0 0)]"
    by (simp add: four_candidates_def)
  have r: "mset (rev four_candidates) = mset four_candidates"
    by simp
  show ?thesis
    using pile_retains_smallest[OF nonneg, of 2] pile_retains_smallest[OF nonneg, of 5] r
    by (simp add: Let_def s numeral_2_eq_2 eval_nat_numeral)
qed

end
